theory Spec2Isabelle
  imports Main "HOL-Library.Word"
begin

unbundle bit_operations_syntax

section \<open>Heap objects of the WebAssembly runtime\<close>

text \<open>
  The runtime (\<^verbatim>\<open>lean_runtime_wasm.c\<close>, \<^verbatim>\<open>init_stubs_wasm.c\<close>, \<^verbatim>\<open>wasm_glue.c\<close>) works on
  \<^verbatim>\<open>lean_object *\<close> values. Such a value is either a boxed scalar (low bit set, the
  number is the pointer shifted right by one) or the address of a heap object; the
  address 0 is the C null pointer.

  A heap object has the header field \<^verbatim>\<open>m_rc\<close> and a body whose shape follows its tag:
  constructor objects (tag at most \<^verbatim>\<open>LeanMaxCtorTag\<close>, \<^verbatim>\<open>m_other\<close> many object fields),
  closures, object arrays, scalar (byte) arrays, strings and \<^verbatim>\<open>ST\<close> references. The body
  constructor stands for the tag together with the cast the C code performs after
  reading it. Sizes are \<^verbatim>\<open>size_t\<close> values, 32 bits wide on the WebAssembly target; they
  are natural numbers here. Where a modelled function computes a size that can wrap
  around (\<^verbatim>\<open>lean_string_push\<close>, \<^verbatim>\<open>lean_string_utf8_get\<close>), the arithmetic is written out
  with the wrap-around.
\<close>

type_synonym u8 = "8 word"
type_synonym u32 = "32 word"

datatype lean_ptr = Box nat | Ptr nat

datatype abort = OutOfMemory | Panic string | Fault | StackOverflow

datatype lean_body =
    CtorObj nat "lean_ptr list"
  | ClosureObj nat nat nat "lean_ptr list"
  | ArrayObj nat nat "lean_ptr list"
  | SArrayObj nat nat "u8 list"
  | StringObj nat nat nat "u8 list"
  | RefObj lean_ptr
  | OtherObj

text \<open>
  \<^item> \<open>CtorObj tag m_objs\<close>: \<^verbatim>\<open>lean_ctor_object\<close>; \<^verbatim>\<open>m_other\<close> is the length of \<open>m_objs\<close>.
  \<^item> \<open>ClosureObj m_fun m_arity m_num_fixed m_objs\<close>: \<^verbatim>\<open>lean_closure_object\<close>.
  \<^item> \<open>ArrayObj m_size m_capacity m_data\<close>: \<^verbatim>\<open>lean_array_object\<close>.
  \<^item> \<open>SArrayObj m_size m_capacity m_data\<close>: \<^verbatim>\<open>lean_sarray_object\<close> with one-byte elements.
  \<^item> \<open>StringObj m_size m_capacity m_length m_data\<close>: \<^verbatim>\<open>lean_string_object\<close>; \<open>m_size\<close>
    counts the terminating zero byte, \<open>m_length\<close> is the cached number of code points.
  \<^item> \<open>RefObj m_value\<close>: \<^verbatim>\<open>lean_ref_object\<close>.
  \<^item> \<open>OtherObj\<close>: any other tag (MPZ, thunk, task, external); no owned children.

  The data list of an array, byte array or string has one entry per allocated slot
  (\<open>m_capacity\<close> of them); the first \<open>m_size\<close> are in use.
\<close>

record lean_object =
  m_rc :: int
  body :: lean_body

text \<open>
  The state of the runtime: the live objects by address, and what the C library
  decides for it. \<open>malloc_left\<close> is the number of calls of \<^verbatim>\<open>malloc\<close> that still succeed
  before one returns null; \<open>next_addr\<close> is the address the next successful call returns;
  \<open>junk p i\<close> is the indeterminate content of slot \<open>i\<close> of memory freshly allocated at
  \<open>p\<close>. The two global constants of \<^verbatim>\<open>init_stubs_wasm.c\<close> are part of the state.
  The native stack is finite: \<open>stack_left\<close> is the number of nested activations of
  \<^verbatim>\<open>lean_dec_ref_cold\<close> it has room for when a function of the runtime is entered; a
  call that finds no room overflows the stack, which ends the run (the abort
  \<open>StackOverflow\<close>).
\<close>

record runtime =
  objs :: "nat \<Rightarrow> lean_object option"
  next_addr :: nat
  malloc_left :: nat
  junk :: "nat \<Rightarrow> nat \<Rightarrow> nat"
  l_Array_empty :: lean_ptr
  l_ByteArray_empty :: lean_ptr
  stack_left :: nat

subsection \<open>Inline helpers of the Lean header\<close>

text \<open>
  Modelled from the spec: the header \<^verbatim>\<open>lean/lean.h\<close> is not among the sources (only the
  shadow \<^verbatim>\<open>config.h\<close> is). Its inline helpers used by the modelled functions follow the
  spec's data model and contracts: scalars are represented without heap allocation;
  \<open>allocate\<close> returns a new object with reference count 1; \<open>retain\<close> increments the count
  unless the object is immortal or a scalar; exclusive ownership means a count of
  exactly 1; an immortal object has the sentinel count 0.
\<close>

definition lean_is_scalar :: "lean_ptr \<Rightarrow> bool" where
  "lean_is_scalar p = (case p of Box n \<Rightarrow> True | Ptr a \<Rightarrow> False)"

definition lean_box :: "nat \<Rightarrow> lean_ptr" where
  "lean_box n = Box (n mod 2 ^ 31)"

definition lean_unbox :: "lean_ptr \<Rightarrow> nat" where
  "lean_unbox p = (case p of Box n \<Rightarrow> n | Ptr a \<Rightarrow> a div 2)"

definition lean_is_exclusive :: "runtime \<Rightarrow> lean_ptr \<Rightarrow> abort + bool" where
  "lean_is_exclusive rt p =
     (case p of
        Box n \<Rightarrow> Inl Fault
      | Ptr a \<Rightarrow>
         (case objs rt a of
            None \<Rightarrow> Inl Fault
          | Some ob \<Rightarrow> Inr (m_rc ob = 1)))"

definition lean_inc :: "runtime \<Rightarrow> lean_ptr \<Rightarrow> abort + runtime" where
  "lean_inc rt p =
     (case p of
        Box n \<Rightarrow> Inr rt
      | Ptr a \<Rightarrow>
         (case objs rt a of
            None \<Rightarrow> Inl Fault
          | Some ob \<Rightarrow>
              if 0 < m_rc ob
              then Inr (rt\<lparr>objs := (objs rt)(a \<mapsto> ob\<lparr>m_rc := m_rc ob + 1\<rparr>)\<rparr>)
              else Inr rt))"

subsection \<open>Allocation (section 2 of the runtime)\<close>

text \<open>
  \<^verbatim>\<open>lean_alloc_object\<close> calls \<^verbatim>\<open>malloc\<close> and aborts through
  \<^verbatim>\<open>lean_internal_panic_out_of_memory\<close> when it returns null. The requested byte size
  depends on the layout of the header's structs and is not part of the model; whether
  the call succeeds is decided by \<open>malloc_left\<close>.
\<close>

definition took :: "runtime \<Rightarrow> runtime" where
  "took rt = rt\<lparr>next_addr := next_addr rt + 8, malloc_left := malloc_left rt - 1\<rparr>"

definition lean_alloc_object :: "runtime \<Rightarrow> abort + nat \<times> runtime" where
  "lean_alloc_object rt =
     (if malloc_left rt = 0 then Inl OutOfMemory
      else Inr (next_addr rt, took rt))"

text \<open>
  \<^verbatim>\<open>lean_set_st_header\<close> (count 1, tag, \<^verbatim>\<open>m_other\<close>) followed by the stores of the other
  fields: \<open>put_object\<close> writes the new object with its body. In \<open>alloc_with\<close> the data
  slots of the body still hold junk.
\<close>

definition put_object :: "runtime \<Rightarrow> nat \<Rightarrow> lean_body \<Rightarrow> runtime" where
  "put_object rt a b = rt\<lparr>objs := (objs rt)(a \<mapsto> \<lparr>m_rc = 1, body = b\<rparr>)\<rparr>"

definition alloc_with :: "runtime \<Rightarrow> (nat \<Rightarrow> lean_body) \<Rightarrow> abort + lean_ptr \<times> runtime" where
  "alloc_with rt mk =
     (case lean_alloc_object rt of
        Inl e \<Rightarrow> Inl e
      | Inr (a, rt1) \<Rightarrow> Inr (Ptr a, put_object rt1 a (mk a)))"

definition junk_ptrs :: "runtime \<Rightarrow> nat \<Rightarrow> nat \<Rightarrow> lean_ptr list" where
  "junk_ptrs rt a n = map (\<lambda>i. Ptr (junk rt a i)) [0..<n]"

definition junk_bytes :: "runtime \<Rightarrow> nat \<Rightarrow> nat \<Rightarrow> u8 list" where
  "junk_bytes rt a n = map (\<lambda>i. of_nat (junk rt a i)) [0..<n]"

definition lean_alloc_ctor :: "runtime \<Rightarrow> nat \<Rightarrow> nat \<Rightarrow> abort + lean_ptr \<times> runtime" where
  "lean_alloc_ctor rt tag num_objs =
     alloc_with rt (\<lambda>a. CtorObj tag (junk_ptrs rt a num_objs))"

definition lean_alloc_array :: "runtime \<Rightarrow> nat \<Rightarrow> nat \<Rightarrow> abort + lean_ptr \<times> runtime" where
  "lean_alloc_array rt sz capacity =
     alloc_with rt (\<lambda>a. ArrayObj sz capacity (junk_ptrs rt a capacity))"

definition lean_alloc_sarray :: "runtime \<Rightarrow> nat \<Rightarrow> nat \<Rightarrow> abort + lean_ptr \<times> runtime" where
  "lean_alloc_sarray rt sz capacity =
     alloc_with rt (\<lambda>a. SArrayObj sz capacity (junk_bytes rt a capacity))"

definition lean_ctor_set :: "runtime \<Rightarrow> lean_ptr \<Rightarrow> nat \<Rightarrow> lean_ptr \<Rightarrow> abort + runtime" where
  "lean_ctor_set rt p i v =
     (case p of
        Box n \<Rightarrow> Inl Fault
      | Ptr a \<Rightarrow>
         (case objs rt a of
            Some ob \<Rightarrow>
              (case body ob of
                 CtorObj tag cs \<Rightarrow>
                   if i < length cs
                   then Inr (rt\<lparr>objs := (objs rt)(a \<mapsto> ob\<lparr>body := CtorObj tag (cs[i := v])\<rparr>)\<rparr>)
                   else Inl Fault
               | _ \<Rightarrow> Inl Fault)
          | None \<Rightarrow> Inl Fault))"

definition lean_free_object :: "runtime \<Rightarrow> nat \<Rightarrow> abort + runtime" where
  "lean_free_object rt a =
     (case objs rt a of
        None \<Rightarrow> Inl Fault
      | Some ob \<Rightarrow> Inr (rt\<lparr>objs := (objs rt)(a := None)\<rparr>))"

text \<open>
  \<^verbatim>\<open>lean_io_result_mk_ok\<close> of the header: a constructor object with tag 0 whose field 0
  is the value. Only the tag and field 0 are relied upon below.
\<close>

definition lean_io_result_mk_ok :: "runtime \<Rightarrow> lean_ptr \<Rightarrow> abort + lean_ptr \<times> runtime" where
  "lean_io_result_mk_ok rt v =
     (case lean_alloc_ctor rt 0 1 of
        Inl e \<Rightarrow> Inl e
      | Inr (r, rt1) \<Rightarrow>
         (case lean_ctor_set rt1 r 0 v of
            Inl e \<Rightarrow> Inl e
          | Inr rt2 \<Rightarrow> Inr (r, rt2)))"


section \<open>Release of an object whose count reaches zero\<close>

text \<open>
  \<^verbatim>\<open>lean_dec_ref_cold\<close> (section 3 of the runtime) is entered from the header's inline
  \<^verbatim>\<open>lean_dec\<close> when the count is not above 1 and not the immortal 0. When the count is
  exactly 1 it runs one of four loops, by tag, that call \<^verbatim>\<open>lean_dec\<close> on every owned child,
  and then frees the object; a call of \<^verbatim>\<open>lean_dec\<close> on a child whose count is 1 enters
  \<^verbatim>\<open>lean_dec_ref_cold\<close> again, on the native stack: the object is freed after the loop,
  so the activation of the parent stays open while the child is released. On a heap
  with a cycle of objects of count 1 the C code does not return, so the model is a
  partial function.

  The three kinds of work are one function over a job:
  \<^item> \<open>Dec p\<close>: the inline \<^verbatim>\<open>lean_dec(p)\<close> (with \<^verbatim>\<open>lean_dec_ref\<close>);
  \<^item> \<open>Cold a\<close>: a call \<^verbatim>\<open>lean_dec_ref_cold\<close> of the object at \<open>a\<close>;
  \<^item> \<open>Kids a i\<close>: the rest of the loop over the children of \<open>a\<close>, from index \<open>i\<close>.
  \<open>room\<close> is the number of further activations of \<^verbatim>\<open>lean_dec_ref_cold\<close> the native stack
  has room for: a call \<open>Cold a\<close> with no room left overflows the stack, and the loops of
  an activation run with one less. The result carries the new state and the largest
  number of activations of \<^verbatim>\<open>lean_dec_ref_cold\<close> that were on the native stack at one
  time during the job.
\<close>

fun kid_count :: "lean_body \<Rightarrow> nat" where
  "kid_count (CtorObj tag cs) = length cs"
| "kid_count (ClosureObj f ar nf cs) = nf"
| "kid_count (ArrayObj sz cap d) = sz"
| "kid_count (RefObj v) = (if v \<noteq> Ptr 0 then 1 else 0)"
| "kid_count (SArrayObj sz cap d) = 0"
| "kid_count (StringObj sz cap len d) = 0"
| "kid_count OtherObj = 0"

fun kid_slots :: "lean_body \<Rightarrow> lean_ptr list" where
  "kid_slots (CtorObj tag cs) = cs"
| "kid_slots (ClosureObj f ar nf cs) = cs"
| "kid_slots (ArrayObj sz cap d) = d"
| "kid_slots (RefObj v) = [v]"
| "kid_slots (SArrayObj sz cap d) = []"
| "kid_slots (StringObj sz cap len d) = []"
| "kid_slots OtherObj = []"

datatype dec_job = Dec lean_ptr | Cold nat | Kids nat nat

partial_function (option) release ::
  "nat \<Rightarrow> runtime \<Rightarrow> dec_job \<Rightarrow> (abort + runtime \<times> nat) option" where
  "release room rt job =
    (case job of
      Dec p \<Rightarrow>
        (case p of
          Box n \<Rightarrow> Some (Inr (rt, 0))
        | Ptr a \<Rightarrow>
            (case objs rt a of
              None \<Rightarrow> Some (Inl Fault)
            | Some ob \<Rightarrow>
                if 1 < m_rc ob
                then Some (Inr (rt\<lparr>objs := (objs rt)(a \<mapsto> ob\<lparr>m_rc := m_rc ob - 1\<rparr>)\<rparr>, 0))
                else if m_rc ob \<noteq> 0 then release room rt (Cold a)
                else Some (Inr (rt, 0))))
    | Cold a \<Rightarrow>
        if room = 0 then Some (Inl StackOverflow)
        else
          (case objs rt a of
            None \<Rightarrow> Some (Inl Fault)
          | Some ob \<Rightarrow>
              if m_rc ob = 1 then
                Option.bind (release (room - 1) rt (Kids a 0)) (\<lambda>r.
                  case r of
                    Inl e \<Rightarrow> Some (Inl e)
                  | Inr (rt1, d) \<Rightarrow>
                      (case lean_free_object rt1 a of
                        Inl e \<Rightarrow> Some (Inl e)
                      | Inr rt2 \<Rightarrow> Some (Inr (rt2, Suc d))))
              else Some (Inr (rt, 1)))
    | Kids a i \<Rightarrow>
        (case objs rt a of
          None \<Rightarrow> Some (Inl Fault)
        | Some ob \<Rightarrow>
            if i < kid_count (body ob) then
              (if i < length (kid_slots (body ob)) then
                 Option.bind (release room rt (Dec (kid_slots (body ob) ! i))) (\<lambda>r.
                   case r of
                     Inl e \<Rightarrow> Some (Inl e)
                   | Inr (rt1, d1) \<Rightarrow>
                       Option.bind (release room rt1 (Kids a (Suc i))) (\<lambda>r2.
                         case r2 of
                           Inl e \<Rightarrow> Some (Inl e)
                         | Inr (rt2, d2) \<Rightarrow> Some (Inr (rt2, max d1 d2))))
               else Some (Inl Fault))
            else Some (Inr (rt, 0))))"

definition lean_dec_ref_cold :: "runtime \<Rightarrow> nat \<Rightarrow> (abort + runtime \<times> nat) option" where
  "lean_dec_ref_cold rt a = release (stack_left rt) rt (Cold a)"

definition lean_dec :: "runtime \<Rightarrow> lean_ptr \<Rightarrow> (abort + runtime) option" where
  "lean_dec rt p = map_option (map_sum id fst) (release (stack_left rt) rt (Dec p))"

lemma release_Dec [code]:
  "release room rt (Dec p) =
     (case p of
        Box n \<Rightarrow> Some (Inr (rt, 0))
      | Ptr a \<Rightarrow>
          (case objs rt a of
            None \<Rightarrow> Some (Inl Fault)
          | Some ob \<Rightarrow>
              if 1 < m_rc ob
              then Some (Inr (rt\<lparr>objs := (objs rt)(a \<mapsto> ob\<lparr>m_rc := m_rc ob - 1\<rparr>)\<rparr>, 0))
              else if m_rc ob \<noteq> 0 then release room rt (Cold a)
              else Some (Inr (rt, 0))))"
  by (subst release.simps) simp

lemma release_Cold [code]:
  "release room rt (Cold a) =
     (if room = 0 then Some (Inl StackOverflow)
      else
        (case objs rt a of
          None \<Rightarrow> Some (Inl Fault)
        | Some ob \<Rightarrow>
            if m_rc ob = 1 then
              Option.bind (release (room - 1) rt (Kids a 0)) (\<lambda>r.
                case r of
                  Inl e \<Rightarrow> Some (Inl e)
                | Inr (rt1, d) \<Rightarrow>
                    (case lean_free_object rt1 a of
                      Inl e \<Rightarrow> Some (Inl e)
                    | Inr rt2 \<Rightarrow> Some (Inr (rt2, Suc d))))
            else Some (Inr (rt, 1))))"
  by (subst release.simps) simp

lemma release_Kids [code]:
  "release room rt (Kids a i) =
     (case objs rt a of
        None \<Rightarrow> Some (Inl Fault)
      | Some ob \<Rightarrow>
          if i < kid_count (body ob) then
            (if i < length (kid_slots (body ob)) then
               Option.bind (release room rt (Dec (kid_slots (body ob) ! i))) (\<lambda>r.
                 case r of
                   Inl e \<Rightarrow> Some (Inl e)
                 | Inr (rt1, d1) \<Rightarrow>
                     Option.bind (release room rt1 (Kids a (Suc i))) (\<lambda>r2.
                       case r2 of
                         Inl e \<Rightarrow> Some (Inl e)
                       | Inr (rt2, d2) \<Rightarrow> Some (Inr (rt2, max d1 d2))))
             else Some (Inl Fault))
          else Some (Inr (rt, 0)))"
  by (subst release.simps) simp

text \<open>
  A chain of depth \<open>n\<close> below the object at \<open>a\<close>: the object has count 1 and exactly one
  owned child (a record field, a closure argument, an array element or a cell value),
  which heads a chain of depth \<open>n - 1\<close>; at depth 0 the object has count 1 and no child.
\<close>

fun owned_chain :: "runtime \<Rightarrow> nat \<Rightarrow> nat \<Rightarrow> bool" where
  "owned_chain rt a 0 =
     (case objs rt a of
        None \<Rightarrow> False
      | Some ob \<Rightarrow> m_rc ob = 1 \<and> kid_count (body ob) = 0)"
| "owned_chain rt a (Suc n) =
     (case objs rt a of
        None \<Rightarrow> False
      | Some ob \<Rightarrow>
          m_rc ob = 1 \<and> kid_count (body ob) = 1 \<and>
          (case kid_slots (body ob) of
             Ptr b # rest \<Rightarrow> owned_chain rt b n
           | _ \<Rightarrow> False))"

fun chain_addrs :: "runtime \<Rightarrow> nat \<Rightarrow> nat \<Rightarrow> nat list" where
  "chain_addrs rt a 0 = [a]"
| "chain_addrs rt a (Suc n) =
     a # (case objs rt a of
            None \<Rightarrow> []
          | Some ob \<Rightarrow>
             (case kid_slots (body ob) of
                Ptr b # rest \<Rightarrow> chain_addrs rt b n
              | _ \<Rightarrow> []))"

text \<open>
  \<open>n\<close> nested records: the object at address \<open>8 * (k + 1)\<close> is a constructor object of
  count 1 whose only field points to the object at \<open>8 * k\<close>; the innermost, at 8, has
  no field. The stack has room for exactly the \<open>n + 1\<close> activations their release
  takes.
\<close>

definition nested_records :: "nat \<Rightarrow> runtime" where
  "nested_records n =
     \<lparr>objs = (\<lambda>a. if a mod 8 = 0 \<and> 8 \<le> a \<and> a \<le> 8 * Suc n
                 then Some \<lparr>m_rc = 1,
                            body = (if a = 8 then CtorObj 0 [] else CtorObj 1 [Ptr (a - 8)])\<rparr>
                 else None),
      next_addr = 8 * Suc (Suc n), malloc_left = 0, junk = (\<lambda>a i. 0),
      l_Array_empty = Ptr 0, l_ByteArray_empty = Ptr 0, stack_left = Suc n\<rparr>"


definition without :: "runtime \<Rightarrow> nat list \<Rightarrow> runtime" where
  "without rt as = rt\<lparr>objs := (\<lambda>x. if x \<in> set as then None else objs rt x)\<rparr>"

lemma owned_chain_unique:
  "owned_chain rt a n \<Longrightarrow> owned_chain rt a k \<Longrightarrow> n = k"
proof (induction n arbitrary: a k)
  case 0
  then show ?case by (cases k) (auto split: option.splits)
next
  case (Suc n)
  then show ?case
    by (cases k) (auto split: option.splits list.splits lean_ptr.splits)
qed

lemma chain_addrs_owned:
  "owned_chain rt a n \<Longrightarrow> x \<in> set (chain_addrs rt a n) \<Longrightarrow> \<exists>k\<le>n. owned_chain rt x k"
proof (induction n arbitrary: a)
  case 0
  then show ?case by auto
next
  case (Suc n)
  from Suc.prems(1) obtain ob b rest where ob: "objs rt a = Some ob"
    "kid_slots (body ob) = Ptr b # rest" and b: "owned_chain rt b n"
    by (auto split: option.splits list.splits lean_ptr.splits)
  show ?case
  proof (cases "x = a")
    case True
    with Suc.prems(1) show ?thesis by blast
  next
    case False
    with Suc.prems(2) ob have "x \<in> set (chain_addrs rt b n)" by simp
    from Suc.IH [OF b this] obtain k where "k \<le> n" "owned_chain rt x k" by blast
    then show ?thesis by (intro exI [of _ k]) simp
  qed
qed

lemma head_not_below:
  assumes "owned_chain rt a (Suc n)" "owned_chain rt b n"
  shows "a \<notin> set (chain_addrs rt b n)"
proof
  assume "a \<in> set (chain_addrs rt b n)"
  with assms(2) obtain k where k: "k \<le> n" "owned_chain rt a k"
    using chain_addrs_owned by blast
  have "Suc n = k"
    using owned_chain_unique [OF assms(1) k(2)] .
  with k(1) show False by simp
qed

lemma length_chain_addrs:
  "owned_chain rt a n \<Longrightarrow> length (chain_addrs rt a n) = Suc n"
  by (induction n arbitrary: a) (auto split: option.splits list.splits lean_ptr.splits)

lemma owned_chain_stack [simp]:
  "owned_chain (rt\<lparr>stack_left := k\<rparr>) a n = owned_chain rt a n"
  by (induction n arbitrary: a) (auto split: option.splits list.splits lean_ptr.splits)

lemma chain_addrs_stack [simp]:
  "chain_addrs (rt\<lparr>stack_left := k\<rparr>) a n = chain_addrs rt a n"
  by (induction n arbitrary: a) (auto split: option.splits list.splits lean_ptr.splits)

text \<open>
  With room for more than \<open>n\<close> activations, the call for the head of a chain of depth
  \<open>n\<close> returns, has removed exactly the objects of the chain, and had \<open>n + 1\<close>
  activations on the stack: the activation for the head is still open while the one
  for its child runs.
\<close>

lemma release_chain:
  "owned_chain rt a n \<Longrightarrow> n < room \<Longrightarrow>
   release room rt (Cold a) = Some (Inr (without rt (chain_addrs rt a n), Suc n))"
proof (induction n arbitrary: a room)
  case 0
  then obtain ob where ob: "objs rt a = Some ob" "m_rc ob = 1" "kid_count (body ob) = 0"
    by (auto split: option.splits)
  have "rt\<lparr>objs := (objs rt)(a := None)\<rparr> = without rt [a]"
    by (auto simp: without_def fun_eq_iff)
  with ob 0(2) show ?case
    by (simp add: release_Cold release_Kids lean_free_object_def)
next
  case (Suc n)
  from Suc.prems(1) obtain ob b rest where
    ob: "objs rt a = Some ob" "m_rc ob = 1" "kid_count (body ob) = 1"
    "kid_slots (body ob) = Ptr b # rest" and b: "owned_chain rt b n"
    by (auto split: option.splits list.splits lean_ptr.splits)
  from b obtain ob' where ob': "objs rt b = Some ob'" "m_rc ob' = 1"
    by (cases n) (auto split: option.splits)
  from Suc.prems(2) have room: "room \<noteq> 0" "n < room - 1" by simp_all
  let ?rt1 = "without rt (chain_addrs rt b n)"
  have cold: "release (room - 1) rt (Cold b) = Some (Inr (?rt1, Suc n))"
    using Suc.IH [OF b room(2)] .
  have notin: "a \<notin> set (chain_addrs rt b n)"
    using head_not_below [OF Suc.prems(1) b] .
  then have a1: "objs ?rt1 a = Some ob"
    by (simp add: without_def ob)
  have dec: "release (room - 1) rt (Dec (Ptr b)) = Some (Inr (?rt1, Suc n))"
    using cold by (simp add: release_Dec ob')
  have kids1: "release (room - 1) ?rt1 (Kids a (Suc 0)) = Some (Inr (?rt1, 0))"
    by (subst release_Kids) (simp add: a1 ob)
  have kids0: "release (room - 1) rt (Kids a 0) = Some (Inr (?rt1, Suc n))"
    using dec kids1 by (subst release_Kids) (simp add: ob)
  have fin: "?rt1\<lparr>objs := (objs ?rt1)(a := None)\<rparr> = without rt (chain_addrs rt a (Suc n))"
    by (auto simp: without_def fun_eq_iff ob)
  show ?case
    using kids0 by (subst release_Cold) (simp add: room(1) ob lean_free_object_def a1 fin)
qed

text \<open>
  With room for \<open>n\<close> activations or fewer, the call overflows the stack: the innermost
  activations find no room.
\<close>

lemma release_overflow:
  "owned_chain rt a n \<Longrightarrow> room \<le> n \<Longrightarrow> release room rt (Cold a) = Some (Inl StackOverflow)"
proof (induction n arbitrary: a room)
  case 0
  then show ?case by (simp add: release_Cold)
next
  case (Suc n)
  show ?case
  proof (cases "room = 0")
    case True
    then show ?thesis by (simp add: release_Cold)
  next
    case False
    from Suc.prems(1) obtain ob b rest where
      ob: "objs rt a = Some ob" "m_rc ob = 1" "kid_count (body ob) = 1"
      "kid_slots (body ob) = Ptr b # rest" and b: "owned_chain rt b n"
      by (auto split: option.splits list.splits lean_ptr.splits)
    from b obtain ob' where ob': "objs rt b = Some ob'" "m_rc ob' = 1"
      by (cases n) (auto split: option.splits)
    from Suc.prems(2) False have "room - 1 \<le> n" by simp
    from Suc.IH [OF b this]
    have cold: "release (room - 1) rt (Cold b) = Some (Inl StackOverflow)" .
    have dec: "release (room - 1) rt (Dec (Ptr b)) = Some (Inl StackOverflow)"
      using cold by (simp add: release_Dec ob')
    have kids0: "release (room - 1) rt (Kids a 0) = Some (Inl StackOverflow)"
      using dec by (subst release_Kids) (simp add: ob)
    show ?thesis
      using kids0 by (subst release_Cold) (simp add: False ob)
  qed
qed

lemma nested_records_chain:
  "k \<le> n \<Longrightarrow> owned_chain (nested_records n) (8 * Suc k) k"
proof (induction k)
  case 0
  then show ?case by (simp add: nested_records_def)
next
  case (Suc k)
  then show ?case by (simp add: nested_records_def)
qed

text \<open>
  Claim C1, as the code has it. Releasing the head of a chain of depth \<open>n\<close> whose
  objects all have count 1 goes by direct recursion of \<^verbatim>\<open>lean_dec_ref_cold\<close> through
  \<^verbatim>\<open>lean_dec\<close>, with no auxiliary work list: it takes \<open>n + 1\<close> nested activations on the
  native stack, a number that grows with the depth of the chain. When the stack has
  room for them, the call returns and has freed the head and every owned descendant,
  and left every other object as it was. When it has not, the call overflows the
  stack and does not complete.
\<close>

theorem deep_release_recurses_per_level:
  assumes "owned_chain rt a n"
  shows "(n < stack_left rt \<longrightarrow>
            lean_dec_ref_cold rt a = Some (Inr (without rt (chain_addrs rt a n), Suc n)) \<and>
            lean_dec rt (Ptr a) = Some (Inr (without rt (chain_addrs rt a n)))) \<and>
         (stack_left rt \<le> n \<longrightarrow>
            lean_dec_ref_cold rt a = Some (Inl StackOverflow) \<and>
            lean_dec rt (Ptr a) = Some (Inl StackOverflow)) \<and>
         length (chain_addrs rt a n) = Suc n \<and>
         (\<forall>x. objs (without rt (chain_addrs rt a n)) x =
           (if x \<in> set (chain_addrs rt a n) then None else objs rt x))"
proof -
  from assms obtain ob where ob: "objs rt a = Some ob" "m_rc ob = 1"
    by (cases n) (auto split: option.splits)
  have 1: "lean_dec_ref_cold rt a = Some (Inr (without rt (chain_addrs rt a n), Suc n)) \<and>
           lean_dec rt (Ptr a) = Some (Inr (without rt (chain_addrs rt a n)))"
    if "n < stack_left rt"
    using release_chain [OF assms that]
    by (simp add: lean_dec_ref_cold_def lean_dec_def release_Dec ob)
  have 2: "lean_dec_ref_cold rt a = Some (Inl StackOverflow) \<and>
           lean_dec rt (Ptr a) = Some (Inl StackOverflow)"
    if "stack_left rt \<le> n"
    using release_overflow [OF assms that]
    by (simp add: lean_dec_ref_cold_def lean_dec_def release_Dec ob)
  have 3: "length (chain_addrs rt a n) = Suc n"
    using length_chain_addrs [OF assms] .
  have 4: "\<forall>x. objs (without rt (chain_addrs rt a n)) x =
           (if x \<in> set (chain_addrs rt a n) then None else objs rt x)"
    by (simp add: without_def)
  from 1 2 3 4 show ?thesis by blast
qed

theorem deep_release_recurses_per_level_witness:
  "owned_chain (nested_records 2) 24 2 \<and> stack_left (nested_records 2) = 3 \<and>
   lean_dec_ref_cold (nested_records 2) 24 =
     Some (Inr (without (nested_records 2) [24, 16, 8], 3)) \<and>
   lean_dec_ref_cold ((nested_records 2)\<lparr>stack_left := 2\<rparr>) 24 = Some (Inl StackOverflow)"
proof -
  have c: "owned_chain (nested_records 2) 24 2"
    using nested_records_chain [of 2 2] by simp
  have c': "owned_chain ((nested_records 2)\<lparr>stack_left := 2\<rparr>) 24 2"
    using c by simp
  have s: "stack_left (nested_records 2) = 3"
    by (simp add: nested_records_def)
  have "chain_addrs (nested_records 2) 24 2 = [24, 16, 8]"
    by (simp add: nested_records_def numeral_2_eq_2)
  with deep_release_recurses_per_level [OF c] deep_release_recurses_per_level [OF c'] c s
  show ?thesis
    by simp
qed

text \<open>
  The claim as stated fails: no constant bounds the number of nested activations. For
  \<open>n\<close> nested records the release of the outermost one has \<open>n + 1\<close> of them.
\<close>

theorem deep_release_depth_unbounded:
  "\<not> (\<exists>K. \<forall>n rt' d.
          lean_dec_ref_cold (nested_records n) (8 * Suc n) = Some (Inr (rt', d)) \<longrightarrow> d \<le> K)"
proof
  assume "\<exists>K. \<forall>n rt' d.
    lean_dec_ref_cold (nested_records n) (8 * Suc n) = Some (Inr (rt', d)) \<longrightarrow> d \<le> K"
  then obtain K where K: "\<And>n rt' d.
    lean_dec_ref_cold (nested_records n) (8 * Suc n) = Some (Inr (rt', d)) \<Longrightarrow> d \<le> K"
    by blast
  have "stack_left (nested_records K) = Suc K"
    by (simp add: nested_records_def)
  then have "lean_dec_ref_cold (nested_records K) (8 * Suc K) =
      Some (Inr (without (nested_records K) (chain_addrs (nested_records K) (8 * Suc K) K), Suc K))"
    unfolding lean_dec_ref_cold_def
    using release_chain [OF nested_records_chain [of K K], of "Suc K"] by simp
  from K [OF this] show False by simp
qed


section \<open>Strings, byte arrays and the stubbed capabilities\<close>

subsection \<open>Sequencing\<close>

text \<open>
  A call that aborts (out of memory, a panic, or a fault: an access the C standard
  leaves undefined, such as reading through a dangling or mistyped pointer) ends the
  run; \<open>and_then\<close> passes the abort on. \<open>after_dec\<close> does the same after a call of
  \<^verbatim>\<open>lean_dec\<close>, which in addition may not return.
\<close>

definition and_then :: "abort + 'a \<Rightarrow> ('a \<Rightarrow> abort + 'b) \<Rightarrow> abort + 'b" where
  "and_then r f = (case r of Inl e \<Rightarrow> Inl e | Inr x \<Rightarrow> f x)"

definition after_dec ::
  "(abort + runtime) option \<Rightarrow> (runtime \<Rightarrow> (abort + 'a) option) \<Rightarrow> (abort + 'a) option" where
  "after_dec r f = (case r of None \<Rightarrow> None | Some (Inl e) \<Rightarrow> Some (Inl e) | Some (Inr rt) \<Rightarrow> f rt)"

subsection \<open>C library calls on the data of an object\<close>

text \<open>
  \<^verbatim>\<open>memcpy(dst + off, src, n)\<close> and \<^verbatim>\<open>memset(dst, v, n)\<close> on data lists. A range that
  leaves the list is an access out of bounds: a fault.
\<close>

definition memcpy :: "'a list \<Rightarrow> nat \<Rightarrow> 'a list \<Rightarrow> nat \<Rightarrow> abort + 'a list" where
  "memcpy dst off src n =
     (if off + n \<le> length dst \<and> n \<le> length src
      then Inr (take off dst @ take n src @ drop (off + n) dst)
      else Inl Fault)"

definition memset :: "'a list \<Rightarrow> 'a \<Rightarrow> nat \<Rightarrow> abort + 'a list" where
  "memset dst v n =
     (if n \<le> length dst then Inr (replicate n v @ drop n dst) else Inl Fault)"

definition store :: "'a list \<Rightarrow> nat \<Rightarrow> 'a \<Rightarrow> abort + 'a list" where
  "store dst i v = (if i < length dst then Inr (dst[i := v]) else Inl Fault)"

definition load :: "'a list \<Rightarrow> nat \<Rightarrow> abort + 'a" where
  "load src i = (if i < length src then Inr (src ! i) else Inl Fault)"

definition set_body :: "runtime \<Rightarrow> nat \<Rightarrow> lean_body \<Rightarrow> runtime" where
  "set_body rt a b =
     (case objs rt a of
        None \<Rightarrow> rt
      | Some ob \<Rightarrow> rt\<lparr>objs := (objs rt)(a \<mapsto> ob\<lparr>body := b\<rparr>)\<rparr>)"

subsection \<open>Construction of strings (section 7 of the runtime)\<close>

text \<open>
  A \<^verbatim>\<open>const char *\<close> argument is the list of the bytes before its terminating zero.
  \<^verbatim>\<open>lean_utf8_strlen\<close> steps over each sequence by the length its first byte announces;
  a step that passes the terminator reads outside the string.
\<close>

definition utf8_step :: "u8 \<Rightarrow> nat" where
  "utf8_step c = (if c < 0x80 then 1 else if c < 0xE0 then 2 else if c < 0xF0 then 3 else 4)"

function lean_utf8_strlen :: "u8 list \<Rightarrow> abort + nat" where
  "lean_utf8_strlen [] = Inr 0"
| "lean_utf8_strlen (c # cs) =
     (if c = 0 then Inr 0
      else if length cs < utf8_step c - 1 then Inl Fault
      else and_then (lean_utf8_strlen (drop (utf8_step c - 1) cs)) (\<lambda>len. Inr (Suc len)))"
  by pat_completeness auto
termination
  by (relation "measure length") auto

definition strlen :: "u8 list \<Rightarrow> nat" where
  "strlen s = length (takeWhile (\<lambda>c. c \<noteq> 0) s)"

definition lean_mk_string_unchecked ::
  "runtime \<Rightarrow> u8 list \<Rightarrow> nat \<Rightarrow> nat \<Rightarrow> abort + lean_ptr \<times> runtime" where
  "lean_mk_string_unchecked rt s sz len =
     (let rsz = sz + 1 in
      and_then (lean_alloc_object rt) (\<lambda>(a, rt1).
      and_then (memcpy (junk_bytes rt a rsz) 0 s sz) (\<lambda>d1.
      and_then (store d1 sz 0) (\<lambda>d2.
        Inr (Ptr a, put_object rt1 a (StringObj rsz rsz len d2))))))"

definition lean_mk_string :: "runtime \<Rightarrow> u8 list \<Rightarrow> abort + lean_ptr \<times> runtime" where
  "lean_mk_string rt s =
     (let sz = strlen s in
      and_then (lean_utf8_strlen s) (\<lambda>len. lean_mk_string_unchecked rt s sz len))"

subsection \<open>Error results (section 10 of the runtime, and the stubs file)\<close>

definition mk_io_error :: "runtime \<Rightarrow> string \<Rightarrow> abort + lean_ptr \<times> runtime" where
  "mk_io_error rt msg =
     and_then (lean_mk_string rt (map of_char msg)) (\<lambda>(s, rt1).
     and_then (lean_alloc_ctor rt1 2 1) (\<lambda>(err, rt2).
     and_then (lean_ctor_set rt2 err 0 s) (\<lambda>rt3.
     and_then (lean_alloc_ctor rt3 1 1) (\<lambda>(r, rt4).
     and_then (lean_ctor_set rt4 r 0 err) (\<lambda>rt5.
       Inr (r, rt5))))))"

definition wasm_io_error :: "runtime \<Rightarrow> string \<Rightarrow> abort + lean_ptr \<times> runtime" where
  "wasm_io_error rt msg =
     and_then (lean_mk_string rt (map of_char msg)) (\<lambda>(s, rt1).
     and_then (lean_alloc_ctor rt1 2 1) (\<lambda>(err, rt2).
     and_then (lean_ctor_set rt2 err 0 s) (\<lambda>rt3.
     and_then (lean_alloc_ctor rt3 1 1) (\<lambda>(r, rt4).
     and_then (lean_ctor_set rt4 r 0 err) (\<lambda>rt5.
       Inr (r, rt5))))))"

definition lean_io_read_dir ::
  "runtime \<Rightarrow> lean_ptr \<Rightarrow> lean_ptr \<Rightarrow> (abort + lean_ptr \<times> runtime) option" where
  "lean_io_read_dir rt path w =
     after_dec (lean_dec rt path) (\<lambda>rt1.
       Some (mk_io_error rt1 ''filesystem not available in WASM''))"

definition l_IO_FS_readFile ::
  "runtime \<Rightarrow> lean_ptr \<Rightarrow> (abort + lean_ptr \<times> runtime) option" where
  "l_IO_FS_readFile rt path =
     after_dec (lean_dec rt path) (\<lambda>rt1.
       Some (wasm_io_error rt1 ''filesystem not available in WASM''))"

definition l_IO_FS_readBinFile ::
  "runtime \<Rightarrow> lean_ptr \<Rightarrow> (abort + lean_ptr \<times> runtime) option" where
  "l_IO_FS_readBinFile rt path =
     after_dec (lean_dec rt path) (\<lambda>rt1.
       Some (wasm_io_error rt1 ''filesystem not available in WASM''))"

text \<open>
  \<^verbatim>\<open>l_System_FilePath_pathExists\<close> (the same section of the stubs file) returns a
  \<^verbatim>\<open>uint8_t\<close>: it releases the path and answers 0.
\<close>

definition l_System_FilePath_pathExists ::
  "runtime \<Rightarrow> lean_ptr \<Rightarrow> (abort + u8 \<times> runtime) option" where
  "l_System_FilePath_pathExists rt path =
     after_dec (lean_dec rt path) (\<lambda>rt1. Some (Inr (0, rt1)))"

definition lean_crypto_sha256 ::
  "runtime \<Rightarrow> lean_ptr \<Rightarrow> lean_ptr \<Rightarrow> (abort + lean_ptr \<times> runtime) option" where
  "lean_crypto_sha256 rt data w =
     after_dec (lean_dec rt data) (\<lambda>rt1.
       Some (mk_io_error rt1 ''crypto FFI not available in WASM''))"

definition lean_crypto_hmac_sha256 ::
  "runtime \<Rightarrow> lean_ptr \<Rightarrow> lean_ptr \<Rightarrow> lean_ptr \<Rightarrow> (abort + lean_ptr \<times> runtime) option" where
  "lean_crypto_hmac_sha256 rt key data w =
     after_dec (lean_dec rt key) (\<lambda>rt1.
     after_dec (lean_dec rt1 data) (\<lambda>rt2.
       Some (mk_io_error rt2 ''crypto FFI not available in WASM'')))"

definition lean_crypto_aes128_gcm_encrypt ::
  "runtime \<Rightarrow> lean_ptr \<Rightarrow> lean_ptr \<Rightarrow> lean_ptr \<Rightarrow> lean_ptr \<Rightarrow> lean_ptr \<Rightarrow>
   (abort + lean_ptr \<times> runtime) option" where
  "lean_crypto_aes128_gcm_encrypt rt key iv aad pt w =
     after_dec (lean_dec rt key) (\<lambda>rt1.
     after_dec (lean_dec rt1 iv) (\<lambda>rt2.
     after_dec (lean_dec rt2 aad) (\<lambda>rt3.
     after_dec (lean_dec rt3 pt) (\<lambda>rt4.
       Some (mk_io_error rt4 ''crypto FFI not available in WASM'')))))"

definition lean_crypto_aes128_gcm_decrypt ::
  "runtime \<Rightarrow> lean_ptr \<Rightarrow> lean_ptr \<Rightarrow> lean_ptr \<Rightarrow> lean_ptr \<Rightarrow> lean_ptr \<Rightarrow>
   (abort + lean_ptr \<times> runtime) option" where
  "lean_crypto_aes128_gcm_decrypt rt key iv aad ct w =
     after_dec (lean_dec rt key) (\<lambda>rt1.
     after_dec (lean_dec rt1 iv) (\<lambda>rt2.
     after_dec (lean_dec rt2 aad) (\<lambda>rt3.
     after_dec (lean_dec rt3 ct) (\<lambda>rt4.
       Some (mk_io_error rt4 ''crypto FFI not available in WASM'')))))"

definition lean_crypto_x25519_base ::
  "runtime \<Rightarrow> lean_ptr \<Rightarrow> lean_ptr \<Rightarrow> (abort + lean_ptr \<times> runtime) option" where
  "lean_crypto_x25519_base rt privkey w =
     after_dec (lean_dec rt privkey) (\<lambda>rt1.
       Some (mk_io_error rt1 ''crypto FFI not available in WASM''))"

definition lean_crypto_x25519 ::
  "runtime \<Rightarrow> lean_ptr \<Rightarrow> lean_ptr \<Rightarrow> lean_ptr \<Rightarrow> (abort + lean_ptr \<times> runtime) option" where
  "lean_crypto_x25519 rt scalar point w =
     after_dec (lean_dec rt scalar) (\<lambda>rt1.
     after_dec (lean_dec rt1 point) (\<lambda>rt2.
       Some (mk_io_error rt2 ''crypto FFI not available in WASM'')))"

definition lean_io_promise_new :: "runtime \<Rightarrow> lean_ptr \<Rightarrow> abort + lean_ptr \<times> runtime" where
  "lean_io_promise_new rt w = mk_io_error rt ''promises not available in WASM''"

subsection \<open>Placeholder random bytes, secure zeroing, character replacement\<close>

definition sarray_memset :: "runtime \<Rightarrow> lean_ptr \<Rightarrow> u8 \<Rightarrow> nat \<Rightarrow> abort + runtime" where
  "sarray_memset rt p v n =
     (case p of
        Box k \<Rightarrow> Inl Fault
      | Ptr a \<Rightarrow>
         (case objs rt a of
            None \<Rightarrow> Inl Fault
          | Some ob \<Rightarrow>
             (case body ob of
                SArrayObj sz cap d \<Rightarrow>
                  and_then (memset d v n) (\<lambda>d1. Inr (set_body rt a (SArrayObj sz cap d1)))
              | _ \<Rightarrow> Inl Fault)))"

definition lean_io_get_random_bytes ::
  "runtime \<Rightarrow> lean_ptr \<Rightarrow> lean_ptr \<Rightarrow> abort + lean_ptr \<times> runtime" where
  "lean_io_get_random_bytes rt n w =
     (let sz = lean_unbox n in
      and_then (lean_alloc_sarray rt sz sz) (\<lambda>(ba, rt1).
      and_then (sarray_memset rt1 ba 0 sz) (\<lambda>rt2.
        lean_io_result_mk_ok rt2 ba)))"

definition lean_crypto_random_bytes ::
  "runtime \<Rightarrow> lean_ptr \<Rightarrow> lean_ptr \<Rightarrow> abort + lean_ptr \<times> runtime" where
  "lean_crypto_random_bytes rt n w =
     (let sz = lean_unbox n in
      and_then (lean_alloc_sarray rt sz sz) (\<lambda>(ba, rt1).
      and_then (sarray_memset rt1 ba 0 sz) (\<lambda>rt2.
        lean_io_result_mk_ok rt2 ba)))"

text \<open>
  \<^verbatim>\<open>lean_secure_zero\<close> of \<^verbatim>\<open>wasm_glue.c\<close>: the bytes in use (\<open>m_size\<close> of them) are set to
  zero when \<^verbatim>\<open>lean_is_exclusive\<close> holds, and the array is wrapped either way.
\<close>

definition sarray_size :: "runtime \<Rightarrow> lean_ptr \<Rightarrow> abort + nat" where
  "sarray_size rt p =
     (case p of
        Box k \<Rightarrow> Inl Fault
      | Ptr a \<Rightarrow>
         (case objs rt a of
            None \<Rightarrow> Inl Fault
          | Some ob \<Rightarrow>
             (case body ob of
                SArrayObj sz cap d \<Rightarrow> Inr sz
              | _ \<Rightarrow> Inl Fault)))"

definition lean_secure_zero ::
  "runtime \<Rightarrow> lean_ptr \<Rightarrow> lean_ptr \<Rightarrow> abort + lean_ptr \<times> runtime" where
  "lean_secure_zero rt arr w =
     and_then (lean_is_exclusive rt arr) (\<lambda>excl.
     and_then (if excl
               then and_then (sarray_size rt arr) (\<lambda>m_size. sarray_memset rt arr 0 m_size)
               else Inr rt) (\<lambda>rt1.
       lean_io_result_mk_ok rt1 arr))"

text \<open>
  \<^verbatim>\<open>lean_string_utf8_set\<close>: both other arguments are cast to void and the string is
  returned.
\<close>

definition lean_string_utf8_set ::
  "runtime \<Rightarrow> lean_ptr \<Rightarrow> lean_ptr \<Rightarrow> u32 \<Rightarrow> lean_ptr \<times> runtime" where
  "lean_string_utf8_set rt s i c = (s, rt)"

subsection \<open>Facts about release and the stubs\<close>

text \<open>
  Releasing never allocates: the allocator's part of the state is as before.
\<close>

definition same_allocator :: "runtime \<Rightarrow> runtime \<Rightarrow> bool" where
  "same_allocator rt rt' =
     (malloc_left rt' = malloc_left rt \<and> next_addr rt' = next_addr rt \<and> junk rt' = junk rt)"

lemma release_keeps_allocator_aux:
  assumes "release room rt job = Some y"
  shows "\<forall>rt' d. y = Inr (rt', d) \<longrightarrow> same_allocator rt rt'"
  using assms
proof (induction room rt job y rule: release.raw_induct [rotated, consumes 1, case_names step])
  case (step release room rt job y)
  show ?case
  proof (cases job)
    case (Dec p)
    with step show ?thesis
      by (auto simp: same_allocator_def split: lean_ptr.splits option.splits if_splits)
  next
    case (Cold a)
    show ?thesis
    proof (cases "room = 0")
      case True
      with step(2) Cold show ?thesis by auto
    next
      case room: False
      show ?thesis
      proof (cases "objs rt a")
        case None
        with step(2) Cold room show ?thesis by auto
      next
        case (Some ob)
        note ob = Some
        show ?thesis
        proof (cases "m_rc ob = 1")
          case True
          show ?thesis
          proof (intro allI impI)
            fix rt' d assume y: "y = Inr (rt', d)"
            with step(2) Cold ob True room obtain r where
              r: "release (room - 1) rt (Kids a 0) = Some r" and
              r2: "(case r of Inl e \<Rightarrow> Some (Inl e)
                    | Inr (rt1, d1) \<Rightarrow>
                        (case lean_free_object rt1 a of
                           Inl e \<Rightarrow> Some (Inl e)
                         | Inr rt2 \<Rightarrow> Some (Inr (rt2, Suc d1)))) = Some (Inr (rt', d))"
              by (auto simp: bind_eq_Some_conv)
            from r2 obtain rt1 d1 where r3: "r = Inr (rt1, d1)"
              and f: "lean_free_object rt1 a = Inr rt'"
              by (cases r) (auto split: sum.splits)
            note k = r [unfolded r3]
            from step(1) [OF k] have "same_allocator rt rt1" by simp
            with f show "same_allocator rt rt'"
              by (auto simp: lean_free_object_def same_allocator_def split: option.splits)
          qed
        next
          case False
          with step(2) Cold ob room show ?thesis by (auto simp: same_allocator_def)
        qed
      qed
    qed
  next
    case (Kids a i)
    show ?thesis
    proof (cases "objs rt a")
      case None
      with step(2) Kids show ?thesis by auto
    next
      case (Some ob)
      note ob = Some
      show ?thesis
    proof (cases "i < kid_count (body ob) \<and> i < length (kid_slots (body ob))")
      case True
      show ?thesis
      proof (intro allI impI)
        fix rt' d assume y: "y = Inr (rt', d)"
        with step(2) Kids ob True obtain r where
          r: "release room rt (Dec (kid_slots (body ob) ! i)) = Some r" and
          r2: "(case r of Inl e \<Rightarrow> Some (Inl e)
                | Inr (rt1, d1) \<Rightarrow>
                    Option.bind (release room rt1 (Kids a (Suc i))) (\<lambda>r2.
                      case r2 of
                        Inl e \<Rightarrow> Some (Inl e)
                      | Inr (rt2, d2) \<Rightarrow> Some (Inr (rt2, max d1 d2)))) = Some (Inr (rt', d))"
          by (auto simp: bind_eq_Some_conv)
        from r2 obtain rt1 d1 where r3: "r = Inr (rt1, d1)"
          by (cases r) auto
        from r2 r3 obtain q where q: "release room rt1 (Kids a (Suc i)) = Some q"
          and q2: "(case q of Inl e \<Rightarrow> Some (Inl e)
                    | Inr (rt2, d2) \<Rightarrow> Some (Inr (rt2, max d1 d2))) = Some (Inr (rt', d))"
          by (auto simp: bind_eq_Some_conv)
        from q2 obtain d2 where q3: "q = Inr (rt', d2)"
          by (cases q) auto
        note k1 = r [unfolded r3] and k2 = q [unfolded q3]
        from step(1) [OF k1] step(1) [OF k2] show "same_allocator rt rt'"
          by (simp add: same_allocator_def)
      qed
    next
      case False
      with step(2) Kids ob show ?thesis by (auto simp: same_allocator_def split: if_splits)
    qed
    qed
  qed
qed

lemma lean_dec_keeps_allocator:
  "lean_dec rt p = Some (Inr rt') \<Longrightarrow> same_allocator rt rt'"
  unfolding lean_dec_def
  by (cases "release (stack_left rt) rt (Dec p)")
    (auto simp: map_sum_def split: sum.splits dest: release_keeps_allocator_aux)


text \<open>
  The messages of the stubs are ASCII literals: every byte is its own code point, so
  \<^verbatim>\<open>lean_utf8_strlen\<close> and \<^verbatim>\<open>strlen\<close> both give the number of bytes.
\<close>

definition ascii :: "u8 list \<Rightarrow> bool" where
  "ascii s = list_all (\<lambda>c. c \<noteq> 0 \<and> c < 0x80) s"

lemma lean_utf8_strlen_ascii: "ascii s \<Longrightarrow> lean_utf8_strlen s = Inr (length s)"
  by (induction s) (auto simp: ascii_def utf8_step_def and_then_def)

lemma strlen_ascii: "ascii s \<Longrightarrow> strlen s = length s"
  by (induction s) (auto simp: ascii_def strlen_def)

text \<open>
  What a result looks like in the heap: \<open>is_string rt p s\<close> says that \<open>p\<close> is a string
  object made by \<^verbatim>\<open>lean_mk_string\<close> from the bytes \<open>s\<close>; \<open>ctor_field0\<close> reads the tag and
  the first field of a constructor object; \<open>is_io_error rt r msg\<close> says that \<open>r\<close> is
  \<^verbatim>\<open>EStateM.Result.error\<close> (tag 1) of \<^verbatim>\<open>IO.Error.userError\<close> (tag 2) of the message.
\<close>

definition is_string :: "runtime \<Rightarrow> lean_ptr \<Rightarrow> u8 list \<Rightarrow> bool" where
  "is_string rt p s =
     (case p of
        Box n \<Rightarrow> False
      | Ptr a \<Rightarrow>
         (case objs rt a of
            None \<Rightarrow> False
          | Some ob \<Rightarrow>
              body ob = StringObj (length s + 1) (length s + 1) (length s) (s @ [0])))"

definition ctor_field0 :: "runtime \<Rightarrow> lean_ptr \<Rightarrow> (nat \<times> lean_ptr) option" where
  "ctor_field0 rt p =
     (case p of
        Box n \<Rightarrow> None
      | Ptr a \<Rightarrow>
         (case objs rt a of
            None \<Rightarrow> None
          | Some ob \<Rightarrow>
             (case body ob of
                CtorObj tag (v # vs) \<Rightarrow> Some (tag, v)
              | _ \<Rightarrow> None)))"

definition is_io_error :: "runtime \<Rightarrow> lean_ptr \<Rightarrow> string \<Rightarrow> bool" where
  "is_io_error rt r msg =
     (case ctor_field0 rt r of
        None \<Rightarrow> False
      | Some (tag, err) \<Rightarrow>
          tag = 1 \<and>
          (case ctor_field0 rt err of
             None \<Rightarrow> False
           | Some (tag2, s) \<Rightarrow> tag2 = 2 \<and> is_string rt s (map of_char msg)))"

lemma junk_bytes_length [simp]: "length (junk_bytes rt a n) = n"
  by (simp add: junk_bytes_def)

lemma junk_ptrs_length [simp]: "length (junk_ptrs rt a n) = n"
  by (simp add: junk_ptrs_def)

lemma drop_last_store: "length xs = Suc n \<Longrightarrow> (drop n xs)[0 := v] = [v]"
proof -
  assume "length xs = Suc n"
  then have "length (drop n xs) = 1" by simp
  then obtain x where "drop n xs = [x]"
    by (cases "drop n xs") auto
  then show ?thesis by simp
qed

lemma lean_mk_string_ascii:
  assumes "ascii s" "0 < malloc_left rt"
  shows "lean_mk_string rt s =
     Inr (Ptr (next_addr rt),
          rt\<lparr>next_addr := next_addr rt + 8, malloc_left := malloc_left rt - 1,
             objs := (objs rt)(next_addr rt \<mapsto>
               \<lparr>m_rc = 1, body = StringObj (length s + 1) (length s + 1) (length s) (s @ [0])\<rparr>)\<rparr>)"
  using assms
  by (simp add: lean_mk_string_def lean_mk_string_unchecked_def lean_utf8_strlen_ascii
      strlen_ascii and_then_def lean_alloc_object_def took_def put_object_def memcpy_def store_def list_update_append
      drop_last_store Let_def)

lemma mk_io_error_result:
  assumes "ascii (map of_char msg)" "3 \<le> malloc_left rt"
  shows "\<exists>r rt'. mk_io_error rt msg = Inr (r, rt') \<and> is_io_error rt' r msg"
  using assms
  by (simp add: mk_io_error_def lean_mk_string_ascii and_then_def lean_alloc_ctor_def
      alloc_with_def lean_alloc_object_def took_def put_object_def lean_ctor_set_def is_io_error_def ctor_field0_def
      is_string_def junk_ptrs_def)


definition is_bytes :: "runtime \<Rightarrow> lean_ptr \<Rightarrow> u8 list \<Rightarrow> bool" where
  "is_bytes rt p bs =
     (case p of
        Box n \<Rightarrow> False
      | Ptr a \<Rightarrow>
         (case objs rt a of
            None \<Rightarrow> False
          | Some ob \<Rightarrow> body ob = SArrayObj (length bs) (length bs) bs))"

text \<open>
  A small heap for concrete runs: the listed objects, the address of the next
  allocation and the number of allocations \<^verbatim>\<open>malloc\<close> serves. Fresh memory holds the byte
  \<open>0xAA\<close>, and the stack has room for 64 activations of \<^verbatim>\<open>lean_dec_ref_cold\<close>.
\<close>

definition heap_of :: "(nat \<times> lean_object) list \<Rightarrow> nat \<Rightarrow> nat \<Rightarrow> runtime" where
  "heap_of al nxt n =
     \<lparr>objs = map_of al, next_addr = nxt, malloc_left = n, junk = (\<lambda>a i. 170),
      l_Array_empty = Ptr 0, l_ByteArray_empty = Ptr 0, stack_left = 64\<rparr>"

lemma fs_msg_ascii: "ascii (map of_char ''filesystem not available in WASM'')"
  by (simp add: ascii_def)

lemma crypto_msg_ascii: "ascii (map of_char ''crypto FFI not available in WASM'')"
  by (simp add: ascii_def)

lemma promise_msg_ascii: "ascii (map of_char ''promises not available in WASM'')"
  by (simp add: ascii_def)

lemma wasm_io_error_eq: "wasm_io_error rt msg = mk_io_error rt msg"
  by (simp add: wasm_io_error_def mk_io_error_def)

lemma after_dec_error:
  assumes "lean_dec rt p = Some (Inr rt1)" "3 \<le> malloc_left rt" "ascii (map of_char msg)"
  shows "\<exists>r rt'. after_dec (lean_dec rt p) (\<lambda>rt1. Some (mk_io_error rt1 msg)) = Some (Inr (r, rt'))
           \<and> is_io_error rt' r msg"
proof -
  from lean_dec_keeps_allocator [OF assms(1)] assms(2) have "3 \<le> malloc_left rt1"
    by (simp add: same_allocator_def)
  from mk_io_error_result [OF assms(3) this] assms(1) show ?thesis
    by (simp add: after_dec_def)
qed

text \<open>
  Claim C6, as the code has it. Directory listing, the two file reads, the six
  cryptographic FFI operations (SHA-256, HMAC-SHA-256, AES-128-GCM encryption and
  decryption, the two X25519 operations) and promise creation return an ordinary
  error result: the error constructor carrying a user error with a descriptive
  message string. Each returns it as a value (\<open>Inr\<close>): it does not abort and it does
  return, provided the release of its owned arguments completes and \<^verbatim>\<open>malloc\<close> serves the
  three allocations of the result. The test whether a path exists is a filesystem
  access without an implementation too, and it does not: it releases the path and
  returns the plain byte 0 (false), with no error result.
\<close>

theorem capability_stubs_return_error_results:
  assumes "3 \<le> malloc_left rt"
  shows
   "(\<forall>path w rt1. lean_dec rt path = Some (Inr rt1) \<longrightarrow>
       (\<exists>r rt'. lean_io_read_dir rt path w = Some (Inr (r, rt')) \<and>
                is_io_error rt' r ''filesystem not available in WASM'')) \<and>
    (\<forall>path rt1. lean_dec rt path = Some (Inr rt1) \<longrightarrow>
       (\<exists>r rt'. l_IO_FS_readFile rt path = Some (Inr (r, rt')) \<and>
                is_io_error rt' r ''filesystem not available in WASM'')) \<and>
    (\<forall>path rt1. lean_dec rt path = Some (Inr rt1) \<longrightarrow>
       (\<exists>r rt'. l_IO_FS_readBinFile rt path = Some (Inr (r, rt')) \<and>
                is_io_error rt' r ''filesystem not available in WASM'')) \<and>
    (\<forall>data w rt1. lean_dec rt data = Some (Inr rt1) \<longrightarrow>
       (\<exists>r rt'. lean_crypto_sha256 rt data w = Some (Inr (r, rt')) \<and>
                is_io_error rt' r ''crypto FFI not available in WASM'')) \<and>
    (\<forall>key data w rt1 rt2.
       lean_dec rt key = Some (Inr rt1) \<and> lean_dec rt1 data = Some (Inr rt2) \<longrightarrow>
       (\<exists>r rt'. lean_crypto_hmac_sha256 rt key data w = Some (Inr (r, rt')) \<and>
                is_io_error rt' r ''crypto FFI not available in WASM'')) \<and>
    (\<forall>key iv aad pt w rt1 rt2 rt3 rt4.
       lean_dec rt key = Some (Inr rt1) \<and> lean_dec rt1 iv = Some (Inr rt2) \<and>
       lean_dec rt2 aad = Some (Inr rt3) \<and> lean_dec rt3 pt = Some (Inr rt4) \<longrightarrow>
       (\<exists>r rt'. lean_crypto_aes128_gcm_encrypt rt key iv aad pt w = Some (Inr (r, rt')) \<and>
                is_io_error rt' r ''crypto FFI not available in WASM'')) \<and>
    (\<forall>key iv aad ct w rt1 rt2 rt3 rt4.
       lean_dec rt key = Some (Inr rt1) \<and> lean_dec rt1 iv = Some (Inr rt2) \<and>
       lean_dec rt2 aad = Some (Inr rt3) \<and> lean_dec rt3 ct = Some (Inr rt4) \<longrightarrow>
       (\<exists>r rt'. lean_crypto_aes128_gcm_decrypt rt key iv aad ct w = Some (Inr (r, rt')) \<and>
                is_io_error rt' r ''crypto FFI not available in WASM'')) \<and>
    (\<forall>privkey w rt1. lean_dec rt privkey = Some (Inr rt1) \<longrightarrow>
       (\<exists>r rt'. lean_crypto_x25519_base rt privkey w = Some (Inr (r, rt')) \<and>
                is_io_error rt' r ''crypto FFI not available in WASM'')) \<and>
    (\<forall>scalar point w rt1 rt2.
       lean_dec rt scalar = Some (Inr rt1) \<and> lean_dec rt1 point = Some (Inr rt2) \<longrightarrow>
       (\<exists>r rt'. lean_crypto_x25519 rt scalar point w = Some (Inr (r, rt')) \<and>
                is_io_error rt' r ''crypto FFI not available in WASM'')) \<and>
    (\<forall>w. \<exists>r rt'. lean_io_promise_new rt w = Inr (r, rt') \<and>
                is_io_error rt' r ''promises not available in WASM'') \<and>
    (\<forall>path rt1. lean_dec rt path = Some (Inr rt1) \<longrightarrow>
       l_System_FilePath_pathExists rt path = Some (Inr (0, rt1)))"
proof -
  have one: "\<exists>r rt'. after_dec (lean_dec rt p) (\<lambda>rt1. Some (mk_io_error rt1 msg)) = Some (Inr (r, rt'))
           \<and> is_io_error rt' r msg"
    if "lean_dec rt p = Some (Inr rt1)" "ascii (map of_char msg)" for p rt1 msg
    using after_dec_error [OF that(1) assms that(2)] .
  have two: "\<exists>r rt'. after_dec (lean_dec rt p) (\<lambda>rt1. after_dec (lean_dec rt1 q)
                (\<lambda>rt2. Some (mk_io_error rt2 msg))) = Some (Inr (r, rt')) \<and> is_io_error rt' r msg"
    if "lean_dec rt p = Some (Inr rt1)" "lean_dec rt1 q = Some (Inr rt2)"
       "ascii (map of_char msg)" for p q rt1 rt2 msg
  proof -
    from lean_dec_keeps_allocator [OF that(1)] assms have "3 \<le> malloc_left rt1"
      by (simp add: same_allocator_def)
    from after_dec_error [OF that(2) this that(3)] that(1) show ?thesis
      by (simp add: after_dec_def)
  qed
  have four: "\<exists>r rt'. after_dec (lean_dec rt p1) (\<lambda>rt1. after_dec (lean_dec rt1 p2)
                (\<lambda>rt2. after_dec (lean_dec rt2 p3) (\<lambda>rt3. after_dec (lean_dec rt3 p4)
                (\<lambda>rt4. Some (mk_io_error rt4 msg))))) = Some (Inr (r, rt')) \<and> is_io_error rt' r msg"
    if "lean_dec rt p1 = Some (Inr rt1)" "lean_dec rt1 p2 = Some (Inr rt2)"
       "lean_dec rt2 p3 = Some (Inr rt3)" "lean_dec rt3 p4 = Some (Inr rt4)"
       "ascii (map of_char msg)" for p1 p2 p3 p4 rt1 rt2 rt3 rt4 msg
  proof -
    from lean_dec_keeps_allocator [OF that(1)] assms have 1: "3 \<le> malloc_left rt1"
      by (simp add: same_allocator_def)
    from lean_dec_keeps_allocator [OF that(2)] 1 have 2: "3 \<le> malloc_left rt2"
      by (simp add: same_allocator_def)
    from lean_dec_keeps_allocator [OF that(3)] 2 have 3: "3 \<le> malloc_left rt3"
      by (simp add: same_allocator_def)
    from after_dec_error [OF that(4) 3 that(5)] that(1,2,3) show ?thesis
      by (simp add: after_dec_def)
  qed
  have c1: "\<forall>path w rt1. lean_dec rt path = Some (Inr rt1) \<longrightarrow>
       (\<exists>r rt'. lean_io_read_dir rt path w = Some (Inr (r, rt')) \<and>
                is_io_error rt' r ''filesystem not available in WASM'')"
    unfolding lean_io_read_dir_def using one [OF _ fs_msg_ascii] by blast
  have c2: "\<forall>path rt1. lean_dec rt path = Some (Inr rt1) \<longrightarrow>
       (\<exists>r rt'. l_IO_FS_readFile rt path = Some (Inr (r, rt')) \<and>
                is_io_error rt' r ''filesystem not available in WASM'')"
    unfolding l_IO_FS_readFile_def wasm_io_error_eq using one [OF _ fs_msg_ascii] by blast
  have c3: "\<forall>path rt1. lean_dec rt path = Some (Inr rt1) \<longrightarrow>
       (\<exists>r rt'. l_IO_FS_readBinFile rt path = Some (Inr (r, rt')) \<and>
                is_io_error rt' r ''filesystem not available in WASM'')"
    unfolding l_IO_FS_readBinFile_def wasm_io_error_eq using one [OF _ fs_msg_ascii] by blast
  have c4: "\<forall>data w rt1. lean_dec rt data = Some (Inr rt1) \<longrightarrow>
       (\<exists>r rt'. lean_crypto_sha256 rt data w = Some (Inr (r, rt')) \<and>
                is_io_error rt' r ''crypto FFI not available in WASM'')"
    unfolding lean_crypto_sha256_def using one [OF _ crypto_msg_ascii] by blast
  have c5: "\<forall>key data w rt1 rt2.
       lean_dec rt key = Some (Inr rt1) \<and> lean_dec rt1 data = Some (Inr rt2) \<longrightarrow>
       (\<exists>r rt'. lean_crypto_hmac_sha256 rt key data w = Some (Inr (r, rt')) \<and>
                is_io_error rt' r ''crypto FFI not available in WASM'')"
    unfolding lean_crypto_hmac_sha256_def using two [OF _ _ crypto_msg_ascii] by blast
  have c6: "\<forall>key iv aad pt w rt1 rt2 rt3 rt4.
       lean_dec rt key = Some (Inr rt1) \<and> lean_dec rt1 iv = Some (Inr rt2) \<and>
       lean_dec rt2 aad = Some (Inr rt3) \<and> lean_dec rt3 pt = Some (Inr rt4) \<longrightarrow>
       (\<exists>r rt'. lean_crypto_aes128_gcm_encrypt rt key iv aad pt w = Some (Inr (r, rt')) \<and>
                is_io_error rt' r ''crypto FFI not available in WASM'')"
    unfolding lean_crypto_aes128_gcm_encrypt_def using four [OF _ _ _ _ crypto_msg_ascii] by blast
  have c7: "\<forall>key iv aad ct w rt1 rt2 rt3 rt4.
       lean_dec rt key = Some (Inr rt1) \<and> lean_dec rt1 iv = Some (Inr rt2) \<and>
       lean_dec rt2 aad = Some (Inr rt3) \<and> lean_dec rt3 ct = Some (Inr rt4) \<longrightarrow>
       (\<exists>r rt'. lean_crypto_aes128_gcm_decrypt rt key iv aad ct w = Some (Inr (r, rt')) \<and>
                is_io_error rt' r ''crypto FFI not available in WASM'')"
    unfolding lean_crypto_aes128_gcm_decrypt_def using four [OF _ _ _ _ crypto_msg_ascii] by blast
  have c8: "\<forall>privkey w rt1. lean_dec rt privkey = Some (Inr rt1) \<longrightarrow>
       (\<exists>r rt'. lean_crypto_x25519_base rt privkey w = Some (Inr (r, rt')) \<and>
                is_io_error rt' r ''crypto FFI not available in WASM'')"
    unfolding lean_crypto_x25519_base_def using one [OF _ crypto_msg_ascii] by blast
  have c9: "\<forall>scalar point w rt1 rt2.
       lean_dec rt scalar = Some (Inr rt1) \<and> lean_dec rt1 point = Some (Inr rt2) \<longrightarrow>
       (\<exists>r rt'. lean_crypto_x25519 rt scalar point w = Some (Inr (r, rt')) \<and>
                is_io_error rt' r ''crypto FFI not available in WASM'')"
    unfolding lean_crypto_x25519_def using two [OF _ _ crypto_msg_ascii] by blast
  have c10: "\<forall>w. \<exists>r rt'. lean_io_promise_new rt w = Inr (r, rt') \<and>
                is_io_error rt' r ''promises not available in WASM''"
    unfolding lean_io_promise_new_def using mk_io_error_result [OF promise_msg_ascii assms] by blast
  have c11: "\<forall>path rt1. lean_dec rt path = Some (Inr rt1) \<longrightarrow>
       l_System_FilePath_pathExists rt path = Some (Inr (0, rt1))"
    by (simp add: l_System_FilePath_pathExists_def after_dec_def)
  from c1 c2 c3 c4 c5 c6 c7 c8 c9 c10 c11 show ?thesis by blast
qed


definition one_path :: runtime where
  "one_path = heap_of [(8, \<lparr>m_rc = 1, body = StringObj 2 2 1 [0x2F, 0]\<rparr>)] 16 3"

theorem capability_stubs_return_error_results_witness:
  "3 \<le> malloc_left one_path \<and>
   lean_dec one_path (Ptr 8) = Some (Inr (one_path\<lparr>objs := (objs one_path)(8 := None)\<rparr>)) \<and>
   (\<exists>r rt'. lean_io_read_dir one_path (Ptr 8) (Box 0) = Some (Inr (r, rt')) \<and>
             is_io_error rt' r ''filesystem not available in WASM'') \<and>
   (\<exists>r rt'. lean_io_promise_new one_path (Box 0) = Inr (r, rt') \<and>
             is_io_error rt' r ''promises not available in WASM'') \<and>
   l_System_FilePath_pathExists one_path (Ptr 8) =
     Some (Inr (0, one_path\<lparr>objs := (objs one_path)(8 := None)\<rparr>))"
proof -
  have h: "3 \<le> malloc_left one_path"
    by (simp add: one_path_def heap_of_def)
  have d: "lean_dec one_path (Ptr 8) = Some (Inr (one_path\<lparr>objs := (objs one_path)(8 := None)\<rparr>))"
    by (simp add: lean_dec_def release_Dec release_Cold release_Kids lean_free_object_def
        one_path_def heap_of_def)
  note all_stubs = capability_stubs_return_error_results [OF h]
  have r: "\<exists>r rt'. lean_io_read_dir one_path (Ptr 8) (Box 0) = Some (Inr (r, rt')) \<and>
             is_io_error rt' r ''filesystem not available in WASM''"
    using conjunct1 [OF all_stubs, rule_format, OF d] .
  from all_stubs have "\<forall>w. \<exists>r rt'. lean_io_promise_new one_path w = Inr (r, rt') \<and>
             is_io_error rt' r ''promises not available in WASM''"
    by (elim conjE)
  then have p: "\<exists>r rt'. lean_io_promise_new one_path (Box 0) = Inr (r, rt') \<and>
             is_io_error rt' r ''promises not available in WASM''" ..
  from all_stubs have "\<forall>path rt1. lean_dec one_path path = Some (Inr rt1) \<longrightarrow>
       l_System_FilePath_pathExists one_path path = Some (Inr (0, rt1))"
    by (elim conjE)
  from this [rule_format, OF d]
  have e: "l_System_FilePath_pathExists one_path (Ptr 8) =
     Some (Inr (0, one_path\<lparr>objs := (objs one_path)(8 := None)\<rparr>))" .
  from h d r p e show ?thesis by (intro conjI)
qed

text \<open>
  The claim as stated fails for the path-existence test: on a heap that holds only the
  path, it returns the byte 0 and leaves a heap with no object in it, so no error
  result has been made.
\<close>

theorem path_exists_returns_no_error_result:
  "l_System_FilePath_pathExists one_path (Ptr 8) =
     Some (Inr (0, one_path\<lparr>objs := (objs one_path)(8 := None)\<rparr>)) \<and>
   (\<forall>a. objs (one_path\<lparr>objs := (objs one_path)(8 := None)\<rparr>) a = None) \<and>
   (\<forall>r msg. \<not> is_io_error (one_path\<lparr>objs := (objs one_path)(8 := None)\<rparr>) r msg)"
proof -
  have d: "lean_dec one_path (Ptr 8) = Some (Inr (one_path\<lparr>objs := (objs one_path)(8 := None)\<rparr>))"
    by (simp add: lean_dec_def release_Dec release_Cold release_Kids lean_free_object_def
        one_path_def heap_of_def)
  have n: "\<forall>a. objs (one_path\<lparr>objs := (objs one_path)(8 := None)\<rparr>) a = None"
    by (simp add: one_path_def heap_of_def)
  then have "\<forall>r msg. \<not> is_io_error (one_path\<lparr>objs := (objs one_path)(8 := None)\<rparr>) r msg"
    by (simp add: is_io_error_def ctor_field0_def split: lean_ptr.splits)
  with d n show ?thesis
    by (simp add: l_System_FilePath_pathExists_def after_dec_def)
qed

text \<open>
  \<open>is_ok_result rt r v\<close>: \<open>r\<close> is the success constructor (tag 0) holding \<open>v\<close>;
  \<open>is_bytes rt p bs\<close> (above): \<open>p\<close> is a byte array of size and capacity \<open>length bs\<close>
  holding exactly \<open>bs\<close>.
\<close>

definition is_ok_result :: "runtime \<Rightarrow> lean_ptr \<Rightarrow> lean_ptr \<Rightarrow> bool" where
  "is_ok_result rt r v = (ctor_field0 rt r = Some (0, v))"

lemma random_bytes_result:
  assumes "2 \<le> malloc_left rt"
  shows "\<exists>ba r rt'. lean_io_get_random_bytes rt n w = Inr (r, rt') \<and>
           is_ok_result rt' r ba \<and> is_bytes rt' ba (replicate (lean_unbox n) 0)"
  using assms
  by (simp add: lean_io_get_random_bytes_def lean_alloc_sarray_def alloc_with_def
      lean_alloc_object_def took_def put_object_def and_then_def sarray_memset_def memset_def set_body_def
      lean_io_result_mk_ok_def lean_alloc_ctor_def lean_ctor_set_def is_ok_result_def
      ctor_field0_def is_bytes_def junk_ptrs_def Let_def)

lemma crypto_random_bytes_eq:
  "lean_crypto_random_bytes rt n w = lean_io_get_random_bytes rt n w"
  by (simp add: lean_crypto_random_bytes_def lean_io_get_random_bytes_def)

text \<open>
  Claim C7. For every requested length (the unboxed argument \<open>n\<close>, which is \<open>k\<close> itself
  for a boxed \<open>k\<close> below \<open>2^31\<close>), both random-bytes operations return a success result
  carrying a byte array of exactly that many bytes, each of them zero, whatever the
  fresh memory held before: a fixed placeholder, the same for every call with the same
  \<open>n\<close> in every state, and never an error result. The two allocations are assumed to
  be served.
\<close>

theorem random_bytes_are_zero_filled:
  assumes "2 \<le> malloc_left rt"
  shows "(\<exists>ba r rt'. lean_io_get_random_bytes rt n w = Inr (r, rt') \<and>
            is_ok_result rt' r ba \<and> is_bytes rt' ba (replicate (lean_unbox n) 0)) \<and>
         (\<exists>ba r rt'. lean_crypto_random_bytes rt n w = Inr (r, rt') \<and>
            is_ok_result rt' r ba \<and> is_bytes rt' ba (replicate (lean_unbox n) 0)) \<and>
         lean_unbox (lean_box k) = k mod 2 ^ 31"
  using random_bytes_result [OF assms] 
  by (simp add: crypto_random_bytes_eq lean_unbox_def lean_box_def)

theorem random_bytes_are_zero_filled_witness:
  "2 \<le> malloc_left one_path \<and>
   (\<exists>ba r rt'. lean_io_get_random_bytes one_path (lean_box 4) (Box 0) = Inr (r, rt') \<and>
      is_ok_result rt' r ba \<and> is_bytes rt' ba [0, 0, 0, 0])"
proof -
  have h: "2 \<le> malloc_left one_path"
    by (simp add: one_path_def heap_of_def)
  have "lean_unbox (lean_box 4) = 4"
    by (simp add: lean_unbox_def lean_box_def)
  moreover have "replicate 4 (0::u8) = [0, 0, 0, 0]"
    by (simp add: numeral_eq_Suc)
  ultimately have "replicate (lean_unbox (lean_box 4)) (0::u8) = [0, 0, 0, 0]"
    by simp
  with random_bytes_are_zero_filled [OF h, of "lean_box 4" "Box 0" 0] h show ?thesis
    by simp
qed

text \<open>
  Claim C9. For every string \<open>s\<close>, position \<open>i\<close> and code point \<open>c\<close>,
  \<^verbatim>\<open>lean_string_utf8_set\<close> returns \<open>s\<close> itself and leaves the whole heap as it was (so
  the bytes, the byte length and the cached code point count of \<open>s\<close> are the same); it
  never performs the replacement.
\<close>

theorem utf8_set_returns_string_unchanged:
  "lean_string_utf8_set rt s i c = (s, rt) \<and>
   objs (snd (lean_string_utf8_set rt s i c)) = objs rt"
  by (simp add: lean_string_utf8_set_def)

text \<open>
  Claim C10. \<^verbatim>\<open>lean_secure_zero\<close> sets the \<open>m_size\<close> bytes in use of its byte array to
  zero when the reference count is exactly 1, and leaves every byte unchanged for any
  other count; in both cases it returns the same array, with its count unchanged,
  wrapped in a success result.
\<close>

theorem secure_zero_only_when_exclusive:
  assumes "objs rt a = Some \<lparr>m_rc = rc, body = SArrayObj sz cap d\<rparr>"
    and "sz \<le> length d" and "0 < malloc_left rt" and "next_addr rt \<noteq> a"
  shows "\<exists>r rt'. lean_secure_zero rt (Ptr a) w = Inr (r, rt') \<and>
           is_ok_result rt' r (Ptr a) \<and>
           objs rt' a = Some \<lparr>m_rc = rc,
             body = SArrayObj sz cap (if rc = 1 then replicate sz 0 @ drop sz d else d)\<rparr>"
  using assms
  by (simp add: lean_secure_zero_def lean_is_exclusive_def and_then_def sarray_size_def
      sarray_memset_def memset_def set_body_def lean_io_result_mk_ok_def lean_alloc_ctor_def
      alloc_with_def lean_alloc_object_def took_def put_object_def lean_ctor_set_def is_ok_result_def ctor_field0_def
      junk_ptrs_def)

definition two_keys :: runtime where
  "two_keys = heap_of [(8, \<lparr>m_rc = 1, body = SArrayObj 2 4 [7, 9, 5, 3]\<rparr>),
                       (16, \<lparr>m_rc = 2, body = SArrayObj 2 4 [7, 9, 5, 3]\<rparr>)] 24 1"

theorem secure_zero_only_when_exclusive_witness:
  "(\<exists>r rt'. lean_secure_zero two_keys (Ptr 8) (Box 0) = Inr (r, rt') \<and>
      is_ok_result rt' r (Ptr 8) \<and>
      objs rt' 8 = Some \<lparr>m_rc = 1, body = SArrayObj 2 4 [0, 0, 5, 3]\<rparr>) \<and>
   (\<exists>r rt'. lean_secure_zero two_keys (Ptr 16) (Box 0) = Inr (r, rt') \<and>
      is_ok_result rt' r (Ptr 16) \<and>
      objs rt' 16 = Some \<lparr>m_rc = 2, body = SArrayObj 2 4 [7, 9, 5, 3]\<rparr>)"
proof -
  have a: "objs two_keys 8 = Some \<lparr>m_rc = 1, body = SArrayObj 2 4 [7, 9, 5, 3]\<rparr>"
    and b: "objs two_keys 16 = Some \<lparr>m_rc = 2, body = SArrayObj 2 4 [7, 9, 5, 3]\<rparr>"
    and m: "0 < malloc_left two_keys"
    and n: "next_addr two_keys \<noteq> 8" "next_addr two_keys \<noteq> 16"
    by (simp_all add: two_keys_def heap_of_def)
  have l: "(2::nat) \<le> length [7, 9, 5, 3 :: u8]" by simp
  from secure_zero_only_when_exclusive [OF a l m n(1), of "Box 0"]
    secure_zero_only_when_exclusive [OF b l m n(2), of "Box 0"]
  show ?thesis by (simp add: numeral_2_eq_2)
qed



section \<open>UTF-8 validation\<close>

text \<open>
  \<^verbatim>\<open>lean_string_validate_utf8\<close> scans the bytes before the terminator, from \<^verbatim>\<open>p\<close> to
  \<^verbatim>\<open>end = p + m_size - 1\<close>. The list argument of \<open>validate_utf8\<close> is what lies between
  \<^verbatim>\<open>p\<close> and \<^verbatim>\<open>end\<close>, so \<^verbatim>\<open>end - p\<close> is its length and \<^verbatim>\<open>p[k]\<close> is, for \<open>k > 0\<close>, element
  \<open>k - 1\<close> of the tail. The C disjunctions test the length first, so no byte at or
  after \<^verbatim>\<open>end\<close> is read. The result is the \<^verbatim>\<open>uint8_t\<close> the function returns.
\<close>

definition is_cont :: "u8 \<Rightarrow> bool" where
  "is_cont b = (b AND 0xC0 = 0x80)"

function validate_utf8 :: "u8 list \<Rightarrow> u8" where
  "validate_utf8 [] = 1"
| "validate_utf8 (b # bs) =
     (if b < 0x80 then validate_utf8 bs
      else if b < 0xC2 then 0
      else if b < 0xE0 then
        (if length (b # bs) < 2 \<or> \<not> is_cont (bs ! 0) then 0
         else validate_utf8 (drop 1 bs))
      else if b < 0xF0 then
        (if length (b # bs) < 3 \<or> \<not> is_cont (bs ! 0) \<or> \<not> is_cont (bs ! 1) then 0
         else validate_utf8 (drop 2 bs))
      else if b < 0xF5 then
        (if length (b # bs) < 4 \<or> \<not> is_cont (bs ! 0) \<or> \<not> is_cont (bs ! 1)
            \<or> \<not> is_cont (bs ! 2) then 0
         else validate_utf8 (drop 3 bs))
      else 0)"
  by pat_completeness auto
termination
  by (relation "measure length") auto

definition lean_string_validate_utf8 :: "runtime \<Rightarrow> lean_ptr \<Rightarrow> abort + u8" where
  "lean_string_validate_utf8 rt s =
     (case s of
        Box n \<Rightarrow> Inl Fault
      | Ptr a \<Rightarrow>
         (case objs rt a of
            None \<Rightarrow> Inl Fault
          | Some ob \<Rightarrow>
             (case body ob of
                StringObj m_size m_capacity m_length m_data \<Rightarrow>
                  if m_size - 1 \<le> length m_data
                  then Inr (validate_utf8 (take (m_size - 1) m_data))
                  else Inl Fault
              | _ \<Rightarrow> Inl Fault)))"


text \<open>
  The vocabulary of the claim. \<open>seq_len b\<close> is the length the leading byte \<open>b\<close>
  announces. \<open>unit_ok u\<close>: \<open>u\<close> is one complete sequence the scan steps over (an ASCII
  byte, or a leading byte from \<open>0xC2\<close> to \<open>0xF4\<close> with all its continuation bytes).
  \<open>string_bytes rt s\<close> is the byte buffer of the string \<open>s\<close> without its terminator.
\<close>

definition seq_len :: "u8 \<Rightarrow> nat" where
  "seq_len b = (if b < 0xE0 then 2 else if b < 0xF0 then 3 else 4)"

fun unit_ok :: "u8 list \<Rightarrow> bool" where
  "unit_ok [b] = (b < 0x80)"
| "unit_ok [b, c1] = (0xC2 \<le> b \<and> b < 0xE0 \<and> is_cont c1)"
| "unit_ok [b, c1, c2] = (0xE0 \<le> b \<and> b < 0xF0 \<and> is_cont c1 \<and> is_cont c2)"
| "unit_ok [b, c1, c2, c3] = (0xF0 \<le> b \<and> b < 0xF5 \<and> is_cont c1 \<and> is_cont c2 \<and> is_cont c3)"
| "unit_ok u = False"

definition string_bytes :: "runtime \<Rightarrow> lean_ptr \<Rightarrow> u8 list option" where
  "string_bytes rt s =
     (case s of
        Box n \<Rightarrow> None
      | Ptr a \<Rightarrow>
         (case objs rt a of
            None \<Rightarrow> None
          | Some ob \<Rightarrow>
             (case body ob of
                StringObj m_size m_capacity m_length m_data \<Rightarrow>
                  if 1 \<le> m_size \<and> m_size \<le> length m_data
                  then Some (take (m_size - 1) m_data)
                  else None
              | _ \<Rightarrow> None)))"

lemma validate_utf8_bool: "validate_utf8 bs = 0 \<or> validate_utf8 bs = 1"
  by (induction bs rule: validate_utf8.induct) auto

lemma not_below: "(k::u8) \<le> b \<Longrightarrow> j \<le> k \<Longrightarrow> \<not> b < j"
  by (simp add: word_less_nat_alt word_le_nat_alt)

lemma validate_bad_lead:
  assumes "0x80 \<le> b" "b < 0xC2 \<or> 0xF5 \<le> b"
  shows "validate_utf8 (b # rest) = 0"
proof -
  from assms(1) have nb: "\<not> b < 0x80" by (simp add: not_less)
  from assms(2) show ?thesis
  proof
    assume "b < 0xC2"
    with nb show ?thesis by simp
  next
    assume h: "0xF5 \<le> b"
    have "\<not> b < 0xC2" "\<not> b < 0xE0" "\<not> b < 0xF0" "\<not> b < 0xF5"
      by (rule not_below [OF h], simp)+
    with nb show ?thesis by simp
  qed
qed

lemma validate_missing_cont:
  assumes "0xC2 \<le> b" "b < 0xF5"
    and "length rest < seq_len b - 1 \<or> (\<exists>i < seq_len b - 1. \<not> is_cont (rest ! i))"
  shows "validate_utf8 (b # rest) = 0"
proof -
  have nb: "\<not> b < 0x80" "\<not> b < 0xC2"
    by (rule not_below [OF assms(1)], simp)+
  show ?thesis
  proof (cases "b < 0xE0")
    case True
    with assms(3) have "length (b # rest) < 2 \<or> \<not> is_cont (rest ! 0)"
      by (auto simp: seq_len_def)
    with nb True show ?thesis by simp
  next
    case False
    note ne = False
    show ?thesis
    proof (cases "b < 0xF0")
      case True
      with assms(3) ne have
        "length (b # rest) < 3 \<or> \<not> is_cont (rest ! 0) \<or> \<not> is_cont (rest ! 1)"
        by (auto simp: seq_len_def less_Suc_eq numeral_2_eq_2)
      with nb ne True show ?thesis by simp
    next
      case False
      with assms(3) ne have
        "length (b # rest) < 4 \<or> \<not> is_cont (rest ! 0) \<or> \<not> is_cont (rest ! 1)
           \<or> \<not> is_cont (rest ! 2)"
        by (auto simp: seq_len_def less_Suc_eq numeral_3_eq_3 numeral_2_eq_2)
      with nb ne False assms(2) show ?thesis by simp
    qed
  qed
qed

lemma validate_unit:
  "unit_ok u \<Longrightarrow> validate_utf8 (u @ rest) = validate_utf8 rest"
proof (induction u rule: unit_ok.induct)
  case (1 b)
  then show ?case by simp
next
  case (2 b c1)
  then have h: "0xC2 \<le> b" by simp
  have "\<not> b < 0x80" "\<not> b < 0xC2"
    by (rule not_below [OF h], simp)+
  with 2 show ?case by simp
next
  case (3 b c1 c2)
  then have h: "0xE0 \<le> b" by simp
  have "\<not> b < 0x80" "\<not> b < 0xC2" "\<not> b < 0xE0"
    by (rule not_below [OF h], simp)+
  with 3 show ?case by simp
next
  case (4 b c1 c2 c3)
  then have h: "0xF0 \<le> b" by simp
  have "\<not> b < 0x80" "\<not> b < 0xC2" "\<not> b < 0xE0" "\<not> b < 0xF0"
    by (rule not_below [OF h], simp)+
  with 4 show ?case by simp
qed simp_all

lemma validate_units:
  "list_all unit_ok us \<Longrightarrow> validate_utf8 (concat us @ rest) = validate_utf8 rest"
  by (induction us) (simp_all add: validate_unit)


text \<open>
  Claim C5. Validation returns 0 or 1, nothing else. After any number of complete
  sequences it returns 0 when the next byte is a lone continuation byte or another
  non-ASCII byte below \<open>0xC2\<close>, or a byte at or above \<open>0xF5\<close>; and when the next byte
  is a leading byte one of whose continuation bytes is missing (the buffer ends
  before it, or the byte in its place is not of the form \<open>10xxxxxx\<close>). A buffer of
  complete sequences only is valid. The single byte \<open>0xC2\<close> is invalid and the two
  bytes \<open>0xC2 0xA9\<close> are valid.
\<close>

lemma validate_of_string:
  "string_bytes rt s = Some bs \<Longrightarrow> lean_string_validate_utf8 rt s = Inr (validate_utf8 bs)"
  by (auto simp: string_bytes_def lean_string_validate_utf8_def
      split: lean_ptr.splits option.splits lean_body.splits if_splits)

theorem validate_utf8_rejects_malformed:
  assumes "string_bytes rt s = Some bs"
  shows "(lean_string_validate_utf8 rt s = Inr 0 \<or> lean_string_validate_utf8 rt s = Inr 1) \<and>
    (\<forall>us b rest.
       bs = concat us @ b # rest \<and> list_all unit_ok us \<and>
       0x80 \<le> b \<and> (b < 0xC2 \<or> 0xF5 \<le> b) \<longrightarrow>
       lean_string_validate_utf8 rt s = Inr 0) \<and>
    (\<forall>us b rest.
       bs = concat us @ b # rest \<and> list_all unit_ok us \<and>
       0xC2 \<le> b \<and> b < 0xF5 \<and>
       (length rest < seq_len b - 1 \<or> (\<exists>i < seq_len b - 1. \<not> is_cont (rest ! i))) \<longrightarrow>
       lean_string_validate_utf8 rt s = Inr 0) \<and>
    (\<forall>us. bs = concat us \<and> list_all unit_ok us \<longrightarrow>
       lean_string_validate_utf8 rt s = Inr 1) \<and>
    (bs = [0xC2] \<longrightarrow> lean_string_validate_utf8 rt s = Inr 0) \<and>
    (bs = [0xC2, 0xA9] \<longrightarrow> lean_string_validate_utf8 rt s = Inr 1)"
proof -
  note v = validate_of_string [OF assms]
  have 1: "lean_string_validate_utf8 rt s = Inr 0 \<or> lean_string_validate_utf8 rt s = Inr 1"
    using validate_utf8_bool [of bs] by (simp add: v)
  have 2: "lean_string_validate_utf8 rt s = Inr 0"
    if "bs = concat us @ b # rest \<and> list_all unit_ok us \<and>
        0x80 \<le> b \<and> (b < 0xC2 \<or> 0xF5 \<le> b)" for us b rest
    using that by (simp add: v validate_units validate_bad_lead del: validate_utf8.simps)
  have 3: "lean_string_validate_utf8 rt s = Inr 0"
    if "bs = concat us @ b # rest \<and> list_all unit_ok us \<and> 0xC2 \<le> b \<and> b < 0xF5 \<and>
       (length rest < seq_len b - 1 \<or> (\<exists>i < seq_len b - 1. \<not> is_cont (rest ! i)))" for us b rest
  proof -
    from that have "validate_utf8 (b # rest) = 0"
      by (intro validate_missing_cont) blast+
    with that show ?thesis
      by (simp add: v validate_units del: validate_utf8.simps)
  qed
  have 4: "lean_string_validate_utf8 rt s = Inr 1"
    if "bs = concat us \<and> list_all unit_ok us" for us
    using that validate_units [of us "[]"] by (simp add: v)
  have 5: "bs = [0xC2] \<longrightarrow> lean_string_validate_utf8 rt s = Inr 0"
    by (simp add: v)
  have 6: "bs = [0xC2, 0xA9] \<longrightarrow> lean_string_validate_utf8 rt s = Inr 1"
    by (simp add: v is_cont_def)
  from 1 2 3 4 5 6 show ?thesis by blast
qed

definition three_strings :: runtime where
  "three_strings = heap_of
     [(8, \<lparr>m_rc = 1, body = StringObj 2 2 1 [0xC2, 0]\<rparr>),
      (16, \<lparr>m_rc = 1, body = StringObj 3 3 1 [0xC2, 0xA9, 0]\<rparr>),
      (24, \<lparr>m_rc = 1, body = StringObj 4 4 2 [0x41, 0x80, 0x42, 0]\<rparr>)] 32 0"

theorem validate_utf8_rejects_malformed_witness:
  "string_bytes three_strings (Ptr 8) = Some [0xC2] \<and>
   lean_string_validate_utf8 three_strings (Ptr 8) = Inr 0 \<and>
   string_bytes three_strings (Ptr 16) = Some [0xC2, 0xA9] \<and>
   lean_string_validate_utf8 three_strings (Ptr 16) = Inr 1 \<and>
   string_bytes three_strings (Ptr 24) = Some (concat [[0x41]] @ 0x80 # [0x42]) \<and>
   lean_string_validate_utf8 three_strings (Ptr 24) = Inr 0"
proof -
  have a: "string_bytes three_strings (Ptr 8) = Some [0xC2]"
    and b: "string_bytes three_strings (Ptr 16) = Some [0xC2, 0xA9]"
    and c: "string_bytes three_strings (Ptr 24) = Some (concat [[0x41]] @ 0x80 # [0x42])"
    by (simp_all add: three_strings_def heap_of_def string_bytes_def)
  have u: "list_all unit_ok [[0x41 :: u8]]" by simp
  have ra: "lean_string_validate_utf8 three_strings (Ptr 8) = Inr 0"
    using validate_utf8_rejects_malformed [OF a] by blast
  have rb: "lean_string_validate_utf8 three_strings (Ptr 16) = Inr 1"
    using validate_utf8_rejects_malformed [OF b] by blast
  have "lean_string_validate_utf8 three_strings (Ptr 24) = Inr 0
        \<or> \<not> (list_all unit_ok [[0x41 :: u8]] \<and> (0x80 :: u8) \<le> 0x80 \<and> (0x80 :: u8) < 0xC2)"
    using validate_utf8_rejects_malformed [OF c] by blast
  with u have rc: "lean_string_validate_utf8 three_strings (Ptr 24) = Inr 0"
    by simp
  from a b c ra rb rc show ?thesis by (intro conjI)
qed


section \<open>Pushing a code point onto a string\<close>

text \<open>
  \<^verbatim>\<open>size_t\<close> is 32 bits wide on the WebAssembly target. \<open>size_add\<close>, \<open>size_mul\<close> and
  \<open>size_sub\<close> are \<^verbatim>\<open>+\<close>, \<^verbatim>\<open>*\<close> and \<^verbatim>\<open>-\<close> on it: they wrap around.
\<close>

definition size_add :: "nat \<Rightarrow> nat \<Rightarrow> nat" where
  "size_add a b = (a + b) mod 2 ^ 32"

definition size_mul :: "nat \<Rightarrow> nat \<Rightarrow> nat" where
  "size_mul a b = (a * b) mod 2 ^ 32"

definition size_sub :: "nat \<Rightarrow> nat \<Rightarrow> nat" where
  "size_sub a b = nat ((int a - int b) mod 2 ^ 32)"

text \<open>
  \<^verbatim>\<open>lean_string_push\<close> first fills \<^verbatim>\<open>buf\<close> and \<^verbatim>\<open>char_sz\<close>: \<open>utf8_buf c\<close> is the filled
  part of \<^verbatim>\<open>buf\<close>, its length is \<^verbatim>\<open>char_sz\<close>. The casts to \<^verbatim>\<open>char\<close> keep the low 8 bits.
\<close>

definition utf8_buf :: "u32 \<Rightarrow> u8 list" where
  "utf8_buf c =
     (if c < 0x80 then [ucast c]
      else if c < 0x800 then
        [ucast (0xC0 OR drop_bit 6 c),
         ucast (0x80 OR (c AND 0x3F))]
      else if c < 0x10000 then
        [ucast (0xE0 OR drop_bit 12 c),
         ucast (0x80 OR (drop_bit 6 c AND 0x3F)),
         ucast (0x80 OR (c AND 0x3F))]
      else
        [ucast (0xF0 OR drop_bit 18 c),
         ucast (0x80 OR (drop_bit 12 c AND 0x3F)),
         ucast (0x80 OR (drop_bit 6 c AND 0x3F)),
         ucast (0x80 OR (c AND 0x3F))])"

text \<open>
  The two stores both branches end with, on the buffer \<open>m_data\<close> of the string written
  to: \<^verbatim>\<open>memcpy(m_data + old_bsz - 1, buf, char_sz)\<close> and \<^verbatim>\<open>m_data[new_bsz - 1] = 0\<close>.
  With \<open>old_bsz = 0\<close> the destination lies before the buffer.
\<close>

definition append_char :: "u8 list \<Rightarrow> nat \<Rightarrow> nat \<Rightarrow> u8 list \<Rightarrow> abort + u8 list" where
  "append_char m_data old_bsz new_bsz buf =
     (if old_bsz = 0 then Inl Fault
      else
        and_then (memcpy m_data (old_bsz - 1) buf (length buf)) (\<lambda>d1.
          store d1 (size_sub new_bsz 1) 0))"

text \<open>
  The copying branch asks \<^verbatim>\<open>lean_alloc_object\<close> for
  \<^verbatim>\<open>sizeof(lean_string_object) + new_cap\<close> bytes, and \<^verbatim>\<open>lean_alloc_object\<close> asks \<^verbatim>\<open>malloc\<close>
  for \<^verbatim>\<open>sizeof(size_t)\<close> more; both sums are \<^verbatim>\<open>size_t\<close> sums. The struct is declared in
  the header \<^verbatim>\<open>lean/lean.h\<close>, which is not among the sources: on the 32-bit target its
  fixed part is 20 bytes (the 8-byte object header and the three \<^verbatim>\<open>size_t\<close> fields
  \<^verbatim>\<open>m_size\<close>, \<^verbatim>\<open>m_capacity\<close>, \<^verbatim>\<open>m_length\<close>), and a \<^verbatim>\<open>size_t\<close> is 4 bytes. \<open>string_block rt r new_cap\<close> is the data area
  of the block returned at \<open>r\<close>: \<open>new_cap\<close> bytes of junk, unless one of the sums wrapped
  around, in which case the block is too small for the stores that follow.
\<close>

definition lean_string_object_size :: nat where
  "lean_string_object_size = 20"

definition string_block :: "runtime \<Rightarrow> nat \<Rightarrow> nat \<Rightarrow> abort + u8 list" where
  "string_block rt r new_cap =
     (if 2 ^ 32 \<le> 4 + (lean_string_object_size + new_cap) then Inl Fault
      else Inr (junk_bytes rt r new_cap))"

text \<open>
  The in-place branch needs exclusive ownership and room for the new size; the other
  branch allocates a buffer of capacity 16 or \<open>2 * new_bsz\<close>, copies the old bytes
  without the terminator, appends, and releases the old string. \<^verbatim>\<open>new_bsz\<close>,
  \<^verbatim>\<open>new_cap\<close> and the incremented \<^verbatim>\<open>m_length\<close> are \<^verbatim>\<open>size_t\<close> values.
\<close>

definition lean_string_push ::
  "runtime \<Rightarrow> lean_ptr \<Rightarrow> u32 \<Rightarrow> (abort + lean_ptr \<times> runtime) option" where
  "lean_string_push rt s c =
     (case s of
        Box n \<Rightarrow> Some (Inl Fault)
      | Ptr a \<Rightarrow>
         (case objs rt a of
            None \<Rightarrow> Some (Inl Fault)
          | Some so \<Rightarrow>
             (case body so of
                StringObj m_size m_capacity m_length m_data \<Rightarrow>
                  (let buf = utf8_buf c;
                       char_sz = length buf;
                       old_bsz = m_size;
                       new_bsz = size_add old_bsz char_sz
                   in
                   if lean_is_exclusive rt s = Inr True \<and> new_bsz \<le> m_capacity then
                     Some
                      (and_then (append_char m_data old_bsz new_bsz buf) (\<lambda>d.
                         Inr (s, set_body rt a
                                   (StringObj new_bsz m_capacity (size_add m_length 1) d))))
                   else
                     (let new_cap = (if new_bsz < 16 then 16 else size_mul new_bsz 2) in
                      case
                        and_then (lean_alloc_object rt) (\<lambda>(r, rt1).
                        and_then (string_block rt r new_cap) (\<lambda>d0.
                        and_then (memcpy d0 0 m_data (size_sub old_bsz 1)) (\<lambda>d1.
                        and_then (append_char d1 old_bsz new_bsz buf) (\<lambda>d.
                          Inr (r, put_object rt1 r
                                    (StringObj new_bsz new_cap (size_add m_length 1) d))))))
                      of
                        Inl e \<Rightarrow> Some (Inl e)
                      | Inr (r, rt2) \<Rightarrow>
                          after_dec (lean_dec rt2 s) (\<lambda>rt3. Some (Inr (Ptr r, rt3)))))
              | _ \<Rightarrow> Some (Inl Fault))))"


subsection \<open>The encoded bytes, as numbers\<close>







subsection \<open>The two branches\<close>


lemma size_sub_1: "1 \<le> n \<Longrightarrow> n < 2 ^ 32 \<Longrightarrow> size_sub n 1 = n - 1"
proof -
  assume a: "1 \<le> n" "n < 2 ^ 32"
  from a(2) have "int n < 2 ^ 32"
    by (metis of_nat_less_iff of_nat_numeral of_nat_power)
  with a(1) have "(int n - 1) mod 2 ^ 32 = int n - 1"
    by (intro mod_pos_pos_trivial) linarith+
  then show ?thesis
    using a(1) by (simp only: size_sub_def of_nat_1)
qed










text \<open>
  Beyond such sizes the arithmetic wraps. For a shared string of \<open>2^31\<close> bytes and a
  one-byte code point, \<^verbatim>\<open>new_bsz * 2\<close> wraps around to 2: the new buffer has 2 bytes and
  the copy of the old bytes runs past it.
\<close>

lemma push_overruns_at_2_31:
  assumes "objs rt a = Some \<lparr>m_rc = rc, body = StringObj 2147483648 cap len d\<rparr>"
    and "rc \<noteq> 1" "0 < malloc_left rt" "c < 0x80"
  shows "lean_string_push rt (Ptr a) c = Some (Inl Fault)"
proof -
  have b: "utf8_buf c = [ucast c]" using assms(4) by (simp add: utf8_buf_def)
  have nb: "size_add 2147483648 (Suc 0) = 2147483649"
    by (simp add: size_add_def)
  have nc: "size_mul 2147483649 2 = 2"
    by (simp add: size_mul_def)
  have ss: "size_sub 2147483648 (Suc 0) = 2147483647"
    using size_sub_1 [of 2147483648] by simp
  have blk: "string_block rt (next_addr rt) 2 = Inr (junk_bytes rt (next_addr rt) 2)"
    by (simp add: string_block_def lean_string_object_size_def)
  have cp: "memcpy (junk_bytes rt (next_addr rt) 2) 0 d 2147483647 = Inl Fault"
    by (simp add: memcpy_def)
  show ?thesis
    using assms(1,2,3)
    by (simp add: lean_string_push_def Let_def b nb nc ss blk cp lean_is_exclusive_def
        lean_alloc_object_def and_then_def)
qed









section \<open>Extracting a sub-range of an array\<close>

text \<open>
  Reading the fields of a byte array or an object array through a pointer (the casts
  \<^verbatim>\<open>lean_to_sarray\<close> and \<^verbatim>\<open>lean_to_array\<close>), and writing its data or size back.
\<close>

definition sarray_get :: "runtime \<Rightarrow> lean_ptr \<Rightarrow> abort + nat \<times> nat \<times> u8 list" where
  "sarray_get rt p =
     (case p of
        Box k \<Rightarrow> Inl Fault
      | Ptr a \<Rightarrow>
         (case objs rt a of
            None \<Rightarrow> Inl Fault
          | Some ob \<Rightarrow>
             (case body ob of
                SArrayObj m_size m_capacity m_data \<Rightarrow> Inr (m_size, m_capacity, m_data)
              | _ \<Rightarrow> Inl Fault)))"

definition sarray_put_data :: "runtime \<Rightarrow> lean_ptr \<Rightarrow> u8 list \<Rightarrow> abort + runtime" where
  "sarray_put_data rt p d =
     (case p of
        Box k \<Rightarrow> Inl Fault
      | Ptr a \<Rightarrow>
         (case objs rt a of
            None \<Rightarrow> Inl Fault
          | Some ob \<Rightarrow>
             (case body ob of
                SArrayObj m_size m_capacity m_data \<Rightarrow>
                  Inr (set_body rt a (SArrayObj m_size m_capacity d))
              | _ \<Rightarrow> Inl Fault)))"

definition array_get :: "runtime \<Rightarrow> lean_ptr \<Rightarrow> abort + nat \<times> nat \<times> lean_ptr list" where
  "array_get rt p =
     (case p of
        Box k \<Rightarrow> Inl Fault
      | Ptr a \<Rightarrow>
         (case objs rt a of
            None \<Rightarrow> Inl Fault
          | Some ob \<Rightarrow>
             (case body ob of
                ArrayObj m_size m_capacity m_data \<Rightarrow> Inr (m_size, m_capacity, m_data)
              | _ \<Rightarrow> Inl Fault)))"

definition array_put :: "runtime \<Rightarrow> lean_ptr \<Rightarrow> nat \<Rightarrow> lean_ptr list \<Rightarrow> abort + runtime" where
  "array_put rt p sz d =
     (case p of
        Box k \<Rightarrow> Inl Fault
      | Ptr a \<Rightarrow>
         (case objs rt a of
            None \<Rightarrow> Inl Fault
          | Some ob \<Rightarrow>
             (case body ob of
                ArrayObj m_size m_capacity m_data \<Rightarrow>
                  Inr (set_body rt a (ArrayObj sz m_capacity d))
              | _ \<Rightarrow> Inl Fault)))"

text \<open>
  \<^verbatim>\<open>l_ByteArray_extract\<close> and \<^verbatim>\<open>l_Array_extract___redArg\<close> of \<^verbatim>\<open>init_stubs_wasm.c\<close>:
  both clamp \<^verbatim>\<open>s\<close> and \<^verbatim>\<open>e\<close> to the size, return a new empty array from
  \<^verbatim>\<open>lean_alloc_sarray(1, 0, 0)\<close> or \<^verbatim>\<open>lean_alloc_array(0, 0)\<close> when \<^verbatim>\<open>s >= e\<close>, and otherwise
  allocate \<^verbatim>\<open>len = e - s\<close> slots and fill them, by \<^verbatim>\<open>memcpy\<close> or by the loop that
  calls \<^verbatim>\<open>lean_inc\<close> on each element and stores it. The argument is borrowed: neither
  function releases it.
\<close>

definition l_ByteArray_extract ::
  "runtime \<Rightarrow> lean_ptr \<Rightarrow> lean_ptr \<Rightarrow> lean_ptr \<Rightarrow> abort + lean_ptr \<times> runtime" where
  "l_ByteArray_extract rt a start stop =
     and_then (sarray_get rt a) (\<lambda>(m_size, m_capacity, m_data).
       (let s0 = lean_unbox start;
            e0 = lean_unbox stop;
            sz = m_size;
            s = (if s0 > sz then sz else s0);
            e = (if e0 > sz then sz else e0)
        in
        if s \<ge> e then lean_alloc_sarray rt 0 0
        else
          (let len = e - s in
           and_then (lean_alloc_sarray rt len len) (\<lambda>(r, rt1).
           and_then (sarray_get rt1 r) (\<lambda>(r_size, r_capacity, r_data).
           and_then (sarray_get rt1 a) (\<lambda>(o_size, o_capacity, o_data).
           and_then (memcpy r_data 0 (drop s o_data) len) (\<lambda>d.
           and_then (sarray_put_data rt1 r d) (\<lambda>rt2.
             Inr (r, rt2)))))))))"

function array_extract_loop ::
  "runtime \<Rightarrow> lean_ptr \<Rightarrow> lean_ptr \<Rightarrow> nat \<Rightarrow> nat \<Rightarrow> nat \<Rightarrow> abort + runtime" where
  "array_extract_loop rt a r s len i =
     (if i < len then
        and_then (array_get rt a) (\<lambda>(o_size, o_capacity, o_data).
        and_then (load o_data (s + i)) (\<lambda>x.
        and_then (lean_inc rt x) (\<lambda>rt1.
        and_then (array_get rt1 a) (\<lambda>(o_size1, o_capacity1, o_data1).
        and_then (load o_data1 (s + i)) (\<lambda>y.
        and_then (array_get rt1 r) (\<lambda>(r_size, r_capacity, r_data).
        and_then (store r_data i y) (\<lambda>d.
        and_then (array_put rt1 r r_size d) (\<lambda>rt2.
          array_extract_loop rt2 a r s len (i + 1)))))))))
      else Inr rt)"
  by pat_completeness auto
termination
  by (relation "measure (\<lambda>(rt, a, r, s, len, i). len - i)") auto

declare array_extract_loop.simps [simp del]

definition l_Array_extract___redArg ::
  "runtime \<Rightarrow> lean_ptr \<Rightarrow> lean_ptr \<Rightarrow> lean_ptr \<Rightarrow> abort + lean_ptr \<times> runtime" where
  "l_Array_extract___redArg rt a start stop =
     and_then (array_get rt a) (\<lambda>(m_size, m_capacity, m_data).
       (let s0 = lean_unbox start;
            e0 = lean_unbox stop;
            sz = m_size;
            s = (if s0 > sz then sz else s0);
            e = (if e0 > sz then sz else e0)
        in
        if s \<ge> e then lean_alloc_array rt 0 0
        else
          (let len = e - s in
           and_then (lean_alloc_array rt len len) (\<lambda>(r, rt1).
           and_then (array_get rt1 r) (\<lambda>(r_size, r_capacity, r_data).
           and_then (array_put rt1 r len r_data) (\<lambda>rt2.
           and_then (array_extract_loop rt2 a r s len 0) (\<lambda>rt3.
             Inr (r, rt3))))))))"

text \<open>
  The canonical empty arrays: \<^verbatim>\<open>init_wasm_globals\<close> allocates them once and marks them
  persistent (count 0). \<open>boot\<close> is a state before it has run.
\<close>

definition lean_mark_persistent :: "runtime \<Rightarrow> lean_ptr \<Rightarrow> abort + runtime" where
  "lean_mark_persistent rt p =
     (case p of
        Box n \<Rightarrow> Inr rt
      | Ptr a \<Rightarrow>
         (case objs rt a of
            None \<Rightarrow> Inl Fault
          | Some ob \<Rightarrow> Inr (rt\<lparr>objs := (objs rt)(a \<mapsto> ob\<lparr>m_rc := 0\<rparr>)\<rparr>)))"

definition init_wasm_globals :: "runtime \<Rightarrow> abort + runtime" where
  "init_wasm_globals rt =
     and_then (lean_alloc_array rt 0 0) (\<lambda>(p, rt1).
     and_then (lean_mark_persistent (rt1\<lparr>l_Array_empty := p\<rparr>) p) (\<lambda>rt2.
     and_then (lean_alloc_sarray rt2 0 0) (\<lambda>(q, rt3).
       lean_mark_persistent (rt3\<lparr>l_ByteArray_empty := q\<rparr>) q)))"

definition boot :: runtime where
  "boot = heap_of [] 8 8"

text \<open>
  \<open>retained k ob\<close> is \<open>ob\<close> after \<open>k\<close> calls of \<^verbatim>\<open>lean_inc\<close>; \<open>live_or_scalar rt p\<close> says
  that \<open>p\<close> is a scalar or points to a live object.
\<close>

definition retained :: "nat \<Rightarrow> lean_object \<Rightarrow> lean_object" where
  "retained k ob = (if 0 < m_rc ob then ob\<lparr>m_rc := m_rc ob + int k\<rparr> else ob)"

definition live_or_scalar :: "runtime \<Rightarrow> lean_ptr \<Rightarrow> bool" where
  "live_or_scalar rt p = (case p of Box n \<Rightarrow> True | Ptr x \<Rightarrow> objs rt x \<noteq> None)"

lemma retained_0 [simp]: "retained 0 ob = ob"
  by (simp add: retained_def)

lemma retained_retained [simp]: "retained k (retained j ob) = retained (j + k) ob"
  by (simp add: retained_def)

lemma body_retained [simp]: "body (retained k ob) = body ob"
  by (simp add: retained_def)

lemma map_retained_0 [simp]: "map_option (retained 0) x = x"
  by (cases x) simp_all

lemma lean_inc_effect:
  assumes "live_or_scalar rt p"
  shows "\<exists>rt1. lean_inc rt p = Inr rt1 \<and>
           (\<forall>z. objs rt1 z = map_option (retained (if p = Ptr z then 1 else 0)) (objs rt z))"
proof (cases p)
  case (Box n)
  then show ?thesis
    by (simp add: lean_inc_def option.map_ident)
next
  case (Ptr y)
  with assms obtain oy where oy: "objs rt y = Some oy"
    by (auto simp: live_or_scalar_def)
  show ?thesis
  proof (cases "0 < m_rc oy")
    case True
    with Ptr oy show ?thesis
      by (auto simp: lean_inc_def retained_def option.map_ident)
  next
    case False
    with Ptr oy show ?thesis
      by (auto simp: lean_inc_def retained_def option.map_ident)
  qed
qed

text \<open>
  The part of the two functions after the clamping, with \<open>s\<close> and \<open>e\<close> as parameters.
\<close>

lemma clamp: "(if x > m then m else x) = min x (m::nat)"
  by (simp add: min_def)

definition bytes_slice ::
  "runtime \<Rightarrow> lean_ptr \<Rightarrow> nat \<Rightarrow> nat \<Rightarrow> abort + lean_ptr \<times> runtime" where
  "bytes_slice rt a s e =
     (if s \<ge> e then lean_alloc_sarray rt 0 0
      else
        and_then (lean_alloc_sarray rt (e - s) (e - s)) (\<lambda>(r, rt1).
        and_then (sarray_get rt1 r) (\<lambda>(r_size, r_capacity, r_data).
        and_then (sarray_get rt1 a) (\<lambda>(o_size, o_capacity, o_data).
        and_then (memcpy r_data 0 (drop s o_data) (e - s)) (\<lambda>d.
        and_then (sarray_put_data rt1 r d) (\<lambda>rt2.
          Inr (r, rt2)))))))"

lemma l_ByteArray_extract_slice:
  "l_ByteArray_extract rt a start stop =
     and_then (sarray_get rt a) (\<lambda>(m_size, m_capacity, m_data).
       bytes_slice rt a (min (lean_unbox start) m_size) (min (lean_unbox stop) m_size))"
  by (simp only: l_ByteArray_extract_def bytes_slice_def Let_def clamp)

lemma bytes_slice_result:
  assumes "objs rt a = Some \<lparr>m_rc = rc, body = SArrayObj n cap d\<rparr>"
    and "n \<le> length d" "0 < malloc_left rt" "objs rt (next_addr rt) = None"
    and "s \<le> n" "e \<le> n"
  shows "\<exists>rt'. bytes_slice rt (Ptr a) s e = Inr (Ptr (next_addr rt), rt') \<and>
           objs rt' (next_addr rt) =
             Some \<lparr>m_rc = 1, body = SArrayObj (e - s) (e - s) (take (e - s) (drop s d))\<rparr> \<and>
           (\<forall>x. x \<noteq> next_addr rt \<longrightarrow> objs rt' x = objs rt x)"
proof -
  from assms(1,4) have ne: "a \<noteq> next_addr rt" by auto
  show ?thesis
  proof (cases "s \<ge> e")
    case True
    with assms ne show ?thesis
      by (simp add: bytes_slice_def and_then_def lean_alloc_sarray_def alloc_with_def
          lean_alloc_object_def took_def put_object_def junk_bytes_def)
  next
    case False
    then have "e - s \<le> length (drop s d)" using assms(2,6) by simp
    with False assms ne show ?thesis
      by (simp add: bytes_slice_def sarray_get_def and_then_def lean_alloc_sarray_def
          alloc_with_def lean_alloc_object_def took_def put_object_def memcpy_def
          sarray_put_data_def set_body_def)
  qed
qed

lemma bytes_extract:
  assumes "objs rt a = Some \<lparr>m_rc = rc, body = SArrayObj n cap d\<rparr>"
    and "n \<le> length d" "0 < malloc_left rt" "objs rt (next_addr rt) = None"
  shows "\<exists>rt'. l_ByteArray_extract rt (Ptr a) start stop = Inr (Ptr (next_addr rt), rt') \<and>
           objs rt' (next_addr rt) =
             Some \<lparr>m_rc = 1,
                   body = SArrayObj (min (lean_unbox stop) n - min (lean_unbox start) n)
                            (min (lean_unbox stop) n - min (lean_unbox start) n)
                            (take (min (lean_unbox stop) n - min (lean_unbox start) n)
                               (drop (min (lean_unbox start) n) d))\<rparr> \<and>
           (\<forall>x. x \<noteq> next_addr rt \<longrightarrow> objs rt' x = objs rt x)"
proof -
  have g: "sarray_get rt (Ptr a) = Inr (n, cap, d)"
    using assms(1) by (simp add: sarray_get_def)
  have "min (lean_unbox start) n \<le> n" "min (lean_unbox stop) n \<le> n" by simp_all
  from bytes_slice_result [OF assms this] show ?thesis
    by (simp only: l_ByteArray_extract_slice g and_then_def sum.case prod.case)
qed


lemma take_drop_step:
  "j < length xs \<Longrightarrow> take (Suc m) (drop j xs) = xs ! j # take m (drop (Suc j) xs)"
  by (metis Cons_nth_drop_Suc take_Suc_Cons)

lemma array_extract_loop_result:
  assumes "objs rt a = Some oa" "body oa = ArrayObj n cap data"
    and "objs rt r = Some orr" "body orr = ArrayObj len len rdata" "length rdata = len"
    and "a \<noteq> r" "s + len \<le> length data" "i \<le> len"
    and "\<forall>p \<in> set (take (len - i) (drop (s + i) data)). p \<noteq> Ptr r \<and> live_or_scalar rt p"
  shows "\<exists>rt'. array_extract_loop rt (Ptr a) (Ptr r) s len i = Inr rt' \<and>
           objs rt' r = Some (orr\<lparr>body := ArrayObj len len
                          (take i rdata @ take (len - i) (drop (s + i) data))\<rparr>) \<and>
           (\<forall>x. x \<noteq> r \<longrightarrow> objs rt' x =
              map_option (retained (count_list (take (len - i) (drop (s + i) data)) (Ptr x)))
                (objs rt x))"
  using assms
proof (induction "len - i" arbitrary: rt i oa orr rdata)
  case 0
  then have i: "i = len" by simp
  have "orr\<lparr>body := ArrayObj len len rdata\<rparr> = orr"
    using 0(5) by (cases orr) simp
  with 0 i show ?case
    by (subst array_extract_loop.simps) simp
next
  case (Suc k)
  then have lt: "i < len" by simp
  let ?x = "data ! (s + i)"
  let ?rest = "take (len - Suc i) (drop (s + Suc i) data)"
  from lt Suc.prems(7) have inr: "s + i < length data" by simp
  from lt have "len - i = Suc (len - Suc i)" by simp
  then have split: "take (len - i) (drop (s + i) data) = ?x # ?rest"
    using take_drop_step [OF inr, of "len - Suc i"] by simp
  from Suc.prems(9) split have xr: "?x \<noteq> Ptr r" and xl: "live_or_scalar rt ?x"
    and rest: "\<forall>p \<in> set ?rest. p \<noteq> Ptr r \<and> live_or_scalar rt p"
    by simp_all
  from lean_inc_effect [OF xl] obtain rt1 where inc: "lean_inc rt ?x = Inr rt1"
    and o1: "\<forall>z. objs rt1 z = map_option (retained (if ?x = Ptr z then 1 else 0)) (objs rt z)"
    by blast
  let ?oa1 = "retained (if ?x = Ptr a then 1 else 0) oa"
  have a1: "objs rt1 a = Some ?oa1" "body ?oa1 = ArrayObj n cap data"
    using o1 Suc.prems(1,2) by simp_all
  have r1: "objs rt1 r = Some orr"
    using o1 Suc.prems(3) xr by simp
  let ?rd = "rdata[i := ?x]"
  let ?or2 = "orr\<lparr>body := ArrayObj len len ?rd\<rparr>"
  let ?rt2 = "set_body rt1 r (ArrayObj len len ?rd)"
  have o2: "objs ?rt2 = (objs rt1)(r \<mapsto> ?or2)"
    using r1 by (simp add: set_body_def)
  have step: "array_extract_loop rt (Ptr a) (Ptr r) s len i =
      array_extract_loop ?rt2 (Ptr a) (Ptr r) s len (i + 1)"
    using lt inr Suc.prems(1,2,3,4,5) inc a1 r1
    by (subst array_extract_loop.simps)
       (simp add: array_get_def and_then_def load_def store_def array_put_def)
  have p1: "objs ?rt2 a = Some ?oa1" using o2 a1 Suc.prems(6) by simp
  have p3: "objs ?rt2 r = Some ?or2" using o2 by simp
  have p4: "body ?or2 = ArrayObj len len ?rd" by simp
  have p5: "length ?rd = len" using Suc.prems(5) by simp
  have p8: "i + 1 \<le> len" using lt by simp
  have p9: "\<forall>p \<in> set (take (len - (i + 1)) (drop (s + (i + 1)) data)).
              p \<noteq> Ptr r \<and> live_or_scalar ?rt2 p"
    using rest o1 o2 by (auto simp: live_or_scalar_def split: lean_ptr.splits)
  have k: "k = len - (i + 1)" using Suc.hyps(2) by simp
  from Suc.hyps(1) [OF k p1 a1(2) p3 p4 p5 Suc.prems(6,7) p8 p9]
  obtain rt' where
    l: "array_extract_loop ?rt2 (Ptr a) (Ptr r) s len (i + 1) = Inr rt'" and
    fr: "objs rt' r = Some (?or2\<lparr>body := ArrayObj len len
           (take (i + 1) ?rd @ take (len - (i + 1)) (drop (s + (i + 1)) data))\<rparr>)" and
    fo: "\<forall>x. x \<noteq> r \<longrightarrow> objs rt' x =
           map_option (retained (count_list (take (len - (i + 1)) (drop (s + (i + 1)) data)) (Ptr x)))
             (objs ?rt2 x)"
    by blast
  have ti: "take (Suc i) ?rd = take i rdata @ [?x]"
    using lt Suc.prems(5) by (simp add: take_Suc_conv_app_nth)
  have g1: "objs rt' r = Some (orr\<lparr>body := ArrayObj len len
              (take i rdata @ take (len - i) (drop (s + i) data))\<rparr>)"
    using fr by (simp add: ti split)
  have g2: "objs rt' x =
      map_option (retained (count_list (take (len - i) (drop (s + i) data)) (Ptr x))) (objs rt x)"
    if "x \<noteq> r" for x
  proof -
    from that fo o2 have "objs rt' x =
        map_option (retained (count_list ?rest (Ptr x))) (objs rt1 x)"
      by simp
    also have "\<dots> = map_option (retained (count_list ?rest (Ptr x)))
        (map_option (retained (if ?x = Ptr x then 1 else 0)) (objs rt x))"
      using o1 by simp
    also have "\<dots> = map_option (retained (count_list (?x # ?rest) (Ptr x))) (objs rt x)"
      by (cases "objs rt x") (auto simp: add.commute)
    finally show ?thesis by (simp add: split)
  qed
  from step l g1 g2 show ?case by auto
qed


definition array_slice ::
  "runtime \<Rightarrow> lean_ptr \<Rightarrow> nat \<Rightarrow> nat \<Rightarrow> abort + lean_ptr \<times> runtime" where
  "array_slice rt a s e =
     (if s \<ge> e then lean_alloc_array rt 0 0
      else
        and_then (lean_alloc_array rt (e - s) (e - s)) (\<lambda>(r, rt1).
        and_then (array_get rt1 r) (\<lambda>(r_size, r_capacity, r_data).
        and_then (array_put rt1 r (e - s) r_data) (\<lambda>rt2.
        and_then (array_extract_loop rt2 a r s (e - s) 0) (\<lambda>rt3.
          Inr (r, rt3))))))"

lemma l_Array_extract_slice:
  "l_Array_extract___redArg rt a start stop =
     and_then (array_get rt a) (\<lambda>(m_size, m_capacity, m_data).
       array_slice rt a (min (lean_unbox start) m_size) (min (lean_unbox stop) m_size))"
  by (simp only: l_Array_extract___redArg_def array_slice_def Let_def clamp)

lemma set_take_drop_subset:
  "s + len \<le> n \<Longrightarrow> set (take len (drop s xs)) \<subseteq> set (take n xs)"
proof -
  assume a: "s + len \<le> n"
  have "take len (drop s xs) = drop s (take (s + len) xs)"
    by (simp add: drop_take)
  then have "set (take len (drop s xs)) \<subseteq> set (take (s + len) xs)"
    by (simp add: set_drop_subset)
  also have "\<dots> \<subseteq> set (take n xs)"
    using a by (rule set_take_subset_set_take)
  finally show ?thesis .
qed

lemma array_slice_result:
  assumes "objs rt a = Some \<lparr>m_rc = rc, body = ArrayObj n cap d\<rparr>"
    and "n \<le> length d" "0 < malloc_left rt" "objs rt (next_addr rt) = None"
    and "\<forall>p \<in> set (take n d). live_or_scalar rt p"
    and "s \<le> n" "e \<le> n"
  shows "\<exists>rt'. array_slice rt (Ptr a) s e = Inr (Ptr (next_addr rt), rt') \<and>
           objs rt' (next_addr rt) =
             Some \<lparr>m_rc = 1, body = ArrayObj (e - s) (e - s) (take (e - s) (drop s d))\<rparr> \<and>
           (\<forall>x. x \<noteq> next_addr rt \<longrightarrow> objs rt' x =
              map_option (retained (count_list (take (e - s) (drop s d)) (Ptr x))) (objs rt x))"
proof -
  let ?r = "next_addr rt"
  from assms(1,4) have ne: "a \<noteq> ?r" by auto
  show ?thesis
  proof (cases "s \<ge> e")
    case True
    with assms(1,3,4) ne show ?thesis
      by (simp add: array_slice_def and_then_def lean_alloc_array_def alloc_with_def
          lean_alloc_object_def took_def put_object_def junk_ptrs_def)
  next
    case False
    let ?len = "e - s"
    let ?j = "junk_ptrs rt ?r ?len"
    let ?orr = "\<lparr>m_rc = 1, body = ArrayObj ?len ?len ?j\<rparr>"
    let ?rt1 = "put_object (took rt) ?r (ArrayObj ?len ?len ?j)"
    let ?rt2 = "set_body ?rt1 ?r (ArrayObj ?len ?len ?j)"
    have al: "lean_alloc_array rt ?len ?len = Inr (Ptr ?r, ?rt1)"
      using assms(3)
      by (simp add: lean_alloc_array_def alloc_with_def lean_alloc_object_def)
    have g: "array_get ?rt1 (Ptr ?r) = Inr (?len, ?len, ?j)"
      by (simp add: array_get_def put_object_def)
    have pt: "array_put ?rt1 (Ptr ?r) ?len ?j = Inr ?rt2"
      by (simp add: array_put_def put_object_def)
    have o2: "objs ?rt2 = (objs rt)(?r \<mapsto> ?orr)"
      by (simp add: set_body_def put_object_def took_def)
    have q1: "objs ?rt2 a = Some \<lparr>m_rc = rc, body = ArrayObj n cap d\<rparr>"
      using o2 assms(1) ne by simp
    have q3: "objs ?rt2 ?r = Some ?orr" using o2 by simp
    have q7: "s + ?len \<le> length d" using False assms(2,7) by simp
    have sub: "set (take ?len (drop s d)) \<subseteq> set (take n d)"
      using False assms(7) by (intro set_take_drop_subset) simp
    have q9: "\<forall>p \<in> set (take (?len - 0) (drop (s + 0) d)). p \<noteq> Ptr ?r \<and> live_or_scalar ?rt2 p"
    proof
      fix p assume "p \<in> set (take (?len - 0) (drop (s + 0) d))"
      with sub have "p \<in> set (take n d)" by auto
      with assms(5) have "live_or_scalar rt p" by blast
      with assms(4) o2 show "p \<noteq> Ptr ?r \<and> live_or_scalar ?rt2 p"
        by (auto simp: live_or_scalar_def split: lean_ptr.splits)
    qed
    have q2: "body \<lparr>m_rc = rc, body = ArrayObj n cap d\<rparr> = ArrayObj n cap d" by simp
    have q4: "body ?orr = ArrayObj ?len ?len ?j" by simp
    have q5: "length ?j = ?len" by simp
    have q8: "0 \<le> ?len" by simp
    from array_extract_loop_result [OF q1 q2 q3 q4 q5 ne q7 q8 q9]
    obtain rt' where
      l: "array_extract_loop ?rt2 (Ptr a) (Ptr ?r) s ?len 0 = Inr rt'" and
      fr: "objs rt' ?r = Some (?orr\<lparr>body := ArrayObj ?len ?len
             (take 0 ?j @ take (?len - 0) (drop (s + 0) d))\<rparr>)" and
      fo: "\<forall>x. x \<noteq> ?r \<longrightarrow> objs rt' x =
             map_option (retained (count_list (take (?len - 0) (drop (s + 0) d)) (Ptr x)))
               (objs ?rt2 x)"
      by blast
    have "array_slice rt (Ptr a) s e = Inr (Ptr ?r, rt')"
      unfolding array_slice_def
      by (simp only: False if_False al and_then_def sum.case prod.case g pt l)
    moreover from fr have "objs rt' ?r =
        Some \<lparr>m_rc = 1, body = ArrayObj ?len ?len (take ?len (drop s d))\<rparr>"
      by simp
    moreover from fo o2 have "\<forall>x. x \<noteq> ?r \<longrightarrow> objs rt' x =
        map_option (retained (count_list (take ?len (drop s d)) (Ptr x))) (objs rt x)"
      by simp
    ultimately show ?thesis by blast
  qed
qed

lemma array_extract:
  assumes "objs rt a = Some \<lparr>m_rc = rc, body = ArrayObj n cap d\<rparr>"
    and "n \<le> length d" "0 < malloc_left rt" "objs rt (next_addr rt) = None"
    and "\<forall>p \<in> set (take n d). live_or_scalar rt p"
  shows "\<exists>rt'. l_Array_extract___redArg rt (Ptr a) start stop = Inr (Ptr (next_addr rt), rt') \<and>
           objs rt' (next_addr rt) =
             Some \<lparr>m_rc = 1,
                   body = ArrayObj (min (lean_unbox stop) n - min (lean_unbox start) n)
                            (min (lean_unbox stop) n - min (lean_unbox start) n)
                            (take (min (lean_unbox stop) n - min (lean_unbox start) n)
                               (drop (min (lean_unbox start) n) d))\<rparr> \<and>
           (\<forall>x. x \<noteq> next_addr rt \<longrightarrow> objs rt' x =
              map_option (retained (count_list
                   (take (min (lean_unbox stop) n - min (lean_unbox start) n)
                      (drop (min (lean_unbox start) n) d)) (Ptr x))) (objs rt x))"
proof -
  have g: "array_get rt (Ptr a) = Inr (n, cap, d)"
    using assms(1) by (simp add: array_get_def)
  have "min (lean_unbox start) n \<le> n" "min (lean_unbox stop) n \<le> n" by simp_all
  from array_slice_result [OF assms this] show ?thesis
    by (simp only: l_Array_extract_slice g and_then_def sum.case prod.case)
qed


text \<open>
  Claim C3, as the code has it. For a byte array or object array \<open>a\<close> of size \<open>n\<close> and
  natural numbers \<open>start\<close>, \<open>stop\<close>, extract clamps both to \<open>[0, n]\<close>: with
  \<open>s = min start n\<close> and \<open>e = min stop n\<close> the result is a newly allocated array of the
  same kind, with reference count 1, whose size and capacity are \<open>e - s\<close> (0 when
  \<open>s \<ge> e\<close>: then a new empty array, not the canonical immortal one) and whose element
  \<open>k\<close> is element \<open>s + k\<close> of \<open>a\<close>. Every other object is unchanged, except that each
  object the new object array points to has been retained once per occurrence
  (immortal ones stay as they are). \<open>a\<close> is a live array whose size is within its
  buffer, its elements in use are scalars or live objects, and \<^verbatim>\<open>malloc\<close> serves the
  allocation at a fresh address.
\<close>

theorem extract_returns_fresh_clamped_subrange:
  "let s = min (lean_unbox start) n; e = min (lean_unbox stop) n; len = e - s in
   (objs rt a = Some \<lparr>m_rc = rc, body = SArrayObj n cap d\<rparr> \<and> n \<le> length d \<and>
    0 < malloc_left rt \<and> objs rt (next_addr rt) = None \<longrightarrow>
      (\<exists>rt'. l_ByteArray_extract rt (Ptr a) start stop = Inr (Ptr (next_addr rt), rt') \<and>
         objs rt' (next_addr rt) =
           Some \<lparr>m_rc = 1, body = SArrayObj len len (take len (drop s d))\<rparr> \<and>
         (\<forall>x. x \<noteq> next_addr rt \<longrightarrow> objs rt' x = objs rt x)) \<and>
      (\<forall>k<len. take len (drop s d) ! k = d ! (s + k))) \<and>
   (objs rt b = Some \<lparr>m_rc = rc', body = ArrayObj n cap' ps\<rparr> \<and> n \<le> length ps \<and>
    0 < malloc_left rt \<and> objs rt (next_addr rt) = None \<and>
    (\<forall>p \<in> set (take n ps). live_or_scalar rt p) \<longrightarrow>
      (\<exists>rt'. l_Array_extract___redArg rt (Ptr b) start stop = Inr (Ptr (next_addr rt), rt') \<and>
         objs rt' (next_addr rt) =
           Some \<lparr>m_rc = 1, body = ArrayObj len len (take len (drop s ps))\<rparr> \<and>
         (\<forall>x. x \<noteq> next_addr rt \<longrightarrow> objs rt' x =
            map_option (retained (count_list (take len (drop s ps)) (Ptr x))) (objs rt x))) \<and>
      (\<forall>k<len. take len (drop s ps) ! k = ps ! (s + k)))"
proof -
  let ?s = "min (lean_unbox start) n"
  let ?e = "min (lean_unbox stop) n"
  have idx: "take (?e - ?s) (drop ?s xs) ! k = xs ! (?s + k)"
    if "k < ?e - ?s" "n \<le> length xs" for k and xs :: "'x list"
    using that by simp
  have bytes: "(\<exists>rt'. l_ByteArray_extract rt (Ptr a) start stop = Inr (Ptr (next_addr rt), rt') \<and>
         objs rt' (next_addr rt) =
           Some \<lparr>m_rc = 1, body = SArrayObj (?e - ?s) (?e - ?s) (take (?e - ?s) (drop ?s d))\<rparr> \<and>
         (\<forall>x. x \<noteq> next_addr rt \<longrightarrow> objs rt' x = objs rt x)) \<and>
      (\<forall>k<?e - ?s. take (?e - ?s) (drop ?s d) ! k = d ! (?s + k))"
    if "objs rt a = Some \<lparr>m_rc = rc, body = SArrayObj n cap d\<rparr> \<and> n \<le> length d \<and>
        0 < malloc_left rt \<and> objs rt (next_addr rt) = None"
  proof -
    from that have h: "objs rt a = Some \<lparr>m_rc = rc, body = SArrayObj n cap d\<rparr>"
      "n \<le> length d" "0 < malloc_left rt" "objs rt (next_addr rt) = None"
      by simp_all
    from bytes_extract [OF h] idx [OF _ h(2)] show ?thesis by blast
  qed
  have arrs: "(\<exists>rt'. l_Array_extract___redArg rt (Ptr b) start stop = Inr (Ptr (next_addr rt), rt') \<and>
         objs rt' (next_addr rt) =
           Some \<lparr>m_rc = 1, body = ArrayObj (?e - ?s) (?e - ?s) (take (?e - ?s) (drop ?s ps))\<rparr> \<and>
         (\<forall>x. x \<noteq> next_addr rt \<longrightarrow> objs rt' x =
            map_option (retained (count_list (take (?e - ?s) (drop ?s ps)) (Ptr x))) (objs rt x))) \<and>
      (\<forall>k<?e - ?s. take (?e - ?s) (drop ?s ps) ! k = ps ! (?s + k))"
    if "objs rt b = Some \<lparr>m_rc = rc', body = ArrayObj n cap' ps\<rparr> \<and> n \<le> length ps \<and>
        0 < malloc_left rt \<and> objs rt (next_addr rt) = None \<and>
        (\<forall>p \<in> set (take n ps). live_or_scalar rt p)"
  proof -
    from that have h: "objs rt b = Some \<lparr>m_rc = rc', body = ArrayObj n cap' ps\<rparr>"
      "n \<le> length ps" "0 < malloc_left rt" "objs rt (next_addr rt) = None"
      "\<forall>p \<in> set (take n ps). live_or_scalar rt p"
      by simp_all
    from array_extract [OF h] idx [OF _ h(2)] show ?thesis by blast
  qed
  from bytes arrs show ?thesis
    unfolding Let_def by blast
qed

definition two_arrays :: runtime where
  "two_arrays = heap_of
     [(8, \<lparr>m_rc = 1, body = SArrayObj 3 4 [0x41, 0x41, 0x41, 0x99]\<rparr>),
      (16, \<lparr>m_rc = 1, body = ArrayObj 3 4 [Ptr 24, Box 7, Ptr 24, Ptr 0]\<rparr>),
      (24, \<lparr>m_rc = 1, body = CtorObj 0 []\<rparr>)] 32 1"

theorem extract_returns_fresh_clamped_subrange_witness:
  "(\<exists>rt'. l_ByteArray_extract two_arrays (Ptr 8) (Box 1) (Box 3) = Inr (Ptr 32, rt') \<and>
      objs rt' 32 = Some \<lparr>m_rc = 1, body = SArrayObj 2 2 [0x41, 0x41]\<rparr>) \<and>
   (\<exists>rt'. l_Array_extract___redArg two_arrays (Ptr 16) (Box 0) (Box 5) = Inr (Ptr 32, rt') \<and>
      objs rt' 32 = Some \<lparr>m_rc = 1, body = ArrayObj 3 3 [Ptr 24, Box 7, Ptr 24]\<rparr> \<and>
      objs rt' 24 = Some \<lparr>m_rc = 3, body = CtorObj 0 []\<rparr>)"
proof -
  have hb: "objs two_arrays 8 = Some \<lparr>m_rc = 1, body = SArrayObj 3 4 [0x41, 0x41, 0x41, 0x99]\<rparr> \<and>
      3 \<le> length [0x41, 0x41, 0x41, 0x99 :: u8] \<and>
      0 < malloc_left two_arrays \<and> objs two_arrays (next_addr two_arrays) = None"
    by (simp add: two_arrays_def heap_of_def)
  have ha: "objs two_arrays 16 = Some \<lparr>m_rc = 1, body = ArrayObj 3 4 [Ptr 24, Box 7, Ptr 24, Ptr 0]\<rparr> \<and>
      3 \<le> length [Ptr 24, Box 7, Ptr 24, Ptr 0] \<and>
      0 < malloc_left two_arrays \<and> objs two_arrays (next_addr two_arrays) = None \<and>
      (\<forall>p \<in> set (take 3 [Ptr 24, Box 7, Ptr 24, Ptr 0]). live_or_scalar two_arrays p)"
    by (simp add: two_arrays_def heap_of_def live_or_scalar_def numeral_3_eq_3)
  have n: "next_addr two_arrays = 32" "objs two_arrays 24 = Some \<lparr>m_rc = 1, body = CtorObj 0 []\<rparr>"
    by (simp_all add: two_arrays_def heap_of_def)
  have sb: "min (lean_unbox (Box 1)) 3 = 1" "min (lean_unbox (Box 3)) 3 = 3"
    "min (lean_unbox (Box 0)) 3 = 0" "min (lean_unbox (Box 5)) 3 = 3"
    by (simp_all add: lean_unbox_def)
  have tb: "take (3 - 1) (drop 1 [0x41, 0x41, 0x41, 0x99 :: u8]) = [0x41, 0x41]"
    "take (3 - 0) (drop 0 [Ptr 24, Box 7, Ptr 24, Ptr 0]) = [Ptr 24, Box 7, Ptr 24]"
    by (simp_all add: numeral_2_eq_2 numeral_3_eq_3)
  note bytes = extract_returns_fresh_clamped_subrange
    [where start = "Box 1" and stop = "Box 3" and n = 3 and rt = two_arrays and a = 8
       and rc = 1 and cap = 4 and d = "[0x41, 0x41, 0x41, 0x99]", unfolded Let_def,
     THEN conjunct1, THEN mp, OF hb, THEN conjunct1]
  have 1: "\<exists>rt'. l_ByteArray_extract two_arrays (Ptr 8) (Box 1) (Box 3) = Inr (Ptr 32, rt') \<and>
      objs rt' 32 = Some \<lparr>m_rc = 1, body = SArrayObj 2 2 [0x41, 0x41]\<rparr>"
    using bytes unfolding sb tb n by auto
  note arrs = extract_returns_fresh_clamped_subrange
    [where start = "Box 0" and stop = "Box 5" and n = 3 and rt = two_arrays and b = 16
       and rc' = 1 and cap' = 4 and ps = "[Ptr 24, Box 7, Ptr 24, Ptr 0]", unfolded Let_def,
     THEN conjunct2, THEN mp, OF ha, THEN conjunct1]
  have 2: "\<exists>rt'. l_Array_extract___redArg two_arrays (Ptr 16) (Box 0) (Box 5) = Inr (Ptr 32, rt') \<and>
      objs rt' 32 = Some \<lparr>m_rc = 1, body = ArrayObj 3 3 [Ptr 24, Box 7, Ptr 24]\<rparr> \<and>
      objs rt' 24 = Some \<lparr>m_rc = 3, body = CtorObj 0 []\<rparr>"
  proof -
    from arrs [unfolded sb tb n] obtain rt' where
      r: "l_Array_extract___redArg two_arrays (Ptr 16) (Box 0) (Box 5) = Inr (Ptr 32, rt')" and
      o: "objs rt' 32 = Some \<lparr>m_rc = 1, body = ArrayObj (3 - 0) (3 - 0) [Ptr 24, Box 7, Ptr 24]\<rparr>" and
      c: "\<forall>x. x \<noteq> 32 \<longrightarrow> objs rt' x =
            map_option (retained (count_list [Ptr 24, Box 7, Ptr 24] (Ptr x))) (objs two_arrays x)"
      by blast
    from c have "objs rt' 24 =
        map_option (retained (count_list [Ptr 24, Box 7, Ptr 24] (Ptr 24))) (objs two_arrays 24)"
      by simp
    then have "objs rt' 24 = Some \<lparr>m_rc = 3, body = CtorObj 0 []\<rparr>"
      by (simp add: n(2) retained_def)
    with r o show ?thesis by simp
  qed
  from 1 2 show ?thesis by blast
qed

text \<open>
  The claim as stated fails where it names the canonical empty container: after
  \<^verbatim>\<open>init_wasm_globals\<close> the canonical empty arrays are the immortal objects at 8 and 16,
  and extracting the range 0 to 0 from either returns a new object at 24 with
  reference count 1.
\<close>

theorem extract_empty_is_not_canonical:
  "case init_wasm_globals boot of
     Inr st \<Rightarrow>
       l_Array_empty st = Ptr 8 \<and> map_option m_rc (objs st 8) = Some 0 \<and>
       l_ByteArray_empty st = Ptr 16 \<and> map_option m_rc (objs st 16) = Some 0 \<and>
       (case l_ByteArray_extract st (l_ByteArray_empty st) (lean_box 0) (lean_box 0) of
          Inr (r, st') \<Rightarrow>
            r = Ptr 24 \<and> r \<noteq> l_ByteArray_empty st' \<and> map_option m_rc (objs st' 24) = Some 1
        | Inl e \<Rightarrow> False) \<and>
       (case l_Array_extract___redArg st (l_Array_empty st) (lean_box 0) (lean_box 0) of
          Inr (r, st') \<Rightarrow>
            r = Ptr 24 \<and> r \<noteq> l_Array_empty st' \<and> map_option m_rc (objs st' 24) = Some 1
        | Inl e \<Rightarrow> False)
   | Inl e \<Rightarrow> False"
  by (simp add: init_wasm_globals_def boot_def heap_of_def lean_alloc_array_def
      lean_alloc_sarray_def alloc_with_def lean_alloc_object_def took_def put_object_def
      and_then_def lean_mark_persistent_def junk_ptrs_def junk_bytes_def
      l_ByteArray_extract_def l_Array_extract___redArg_def sarray_get_def array_get_def
      lean_unbox_def lean_box_def)

section \<open>Closure application (section 4 of the runtime)\<close>

text \<open>
  A function pointer is a number, and the compiled functions behind the pointers are
  a table \<open>fns\<close>: \<open>fns fn as\<close> is what the function behind the pointer \<open>fn\<close> does when it
  is called with the arguments \<open>as\<close>. An argument array \<^verbatim>\<open>lean_object **a\<close> is the list of
  its slots.

  \<^verbatim>\<open>lean_call_with_args\<close> only dispatches on the arity: it looks neither at the arguments
  nor at what the call gives. So it is defined for any type of arguments and of
  outcomes of a call. In \<^verbatim>\<open>lean_apply_m\<close> below the arguments are \<^verbatim>\<open>lean_object *\<close> values
  and the outcome of a call is what the function does to the heap and what it
  returns. The small type \<open>lean_value\<close> serves to run the dispatch on its own.
\<close>

datatype lean_value =
    Scalar nat
  | Object nat "lean_value list"

definition lean_call_with_args ::
  "(nat \<Rightarrow> 'a list \<Rightarrow> 'b) \<Rightarrow> nat \<Rightarrow> nat \<Rightarrow> 'a list \<Rightarrow> abort + 'b" where
  "lean_call_with_args fns fn arity a =
     (if arity = 1 then Inr (fns fn [a ! 0])
      else if arity = 2 then Inr (fns fn [a ! 0, a ! 1])
      else if arity = 3 then Inr (fns fn [a ! 0, a ! 1, a ! 2])
      else if arity = 4 then Inr (fns fn [a ! 0, a ! 1, a ! 2, a ! 3])
      else if arity = 5 then Inr (fns fn [a ! 0, a ! 1, a ! 2, a ! 3, a ! 4])
      else if arity = 6 then Inr (fns fn [a ! 0, a ! 1, a ! 2, a ! 3, a ! 4, a ! 5])
      else if arity = 7 then Inr (fns fn [a ! 0, a ! 1, a ! 2, a ! 3, a ! 4, a ! 5, a ! 6])
      else if arity = 8 then Inr (fns fn [a ! 0, a ! 1, a ! 2, a ! 3, a ! 4, a ! 5, a ! 6, a ! 7])
      else if arity = 9 then Inr (fns fn [a ! 0, a ! 1, a ! 2, a ! 3, a ! 4, a ! 5, a ! 6, a ! 7, a ! 8])
      else if arity = 10 then Inr (fns fn [a ! 0, a ! 1, a ! 2, a ! 3, a ! 4, a ! 5, a ! 6, a ! 7, a ! 8, a ! 9])
      else if arity = 11 then Inr (fns fn [a ! 0, a ! 1, a ! 2, a ! 3, a ! 4, a ! 5, a ! 6, a ! 7, a ! 8, a ! 9, a ! 10])
      else if arity = 12 then Inr (fns fn [a ! 0, a ! 1, a ! 2, a ! 3, a ! 4, a ! 5, a ! 6, a ! 7, a ! 8, a ! 9, a ! 10, a ! 11])
      else if arity = 13 then Inr (fns fn [a ! 0, a ! 1, a ! 2, a ! 3, a ! 4, a ! 5, a ! 6, a ! 7, a ! 8, a ! 9, a ! 10, a ! 11, a ! 12])
      else if arity = 14 then Inr (fns fn [a ! 0, a ! 1, a ! 2, a ! 3, a ! 4, a ! 5, a ! 6, a ! 7, a ! 8, a ! 9, a ! 10, a ! 11, a ! 12, a ! 13])
      else if arity = 15 then Inr (fns fn [a ! 0, a ! 1, a ! 2, a ! 3, a ! 4, a ! 5, a ! 6, a ! 7, a ! 8, a ! 9, a ! 10, a ! 11, a ! 12, a ! 13, a ! 14])
      else if arity = 16 then Inr (fns fn [a ! 0, a ! 1, a ! 2, a ! 3, a ! 4, a ! 5, a ! 6, a ! 7, a ! 8, a ! 9, a ! 10, a ! 11, a ! 12, a ! 13, a ! 14, a ! 15])
      else Inl (Panic ''lean_call_with_args: arity > 16''))"

lemma take_as_nths: "k \<le> length a \<Longrightarrow> take k a = map ((!) a) [0..<k]"
  by (simp add: list_eq_iff_nth_eq)

lemma call_in_range:
  assumes "1 \<le> arity" "arity \<le> 16" "arity \<le> length a"
  shows "lean_call_with_args fns fn arity a = Inr (fns fn (take arity a))"
proof -
  from assms(1,2) have d:
    "arity = 1 \<or> arity = 2 \<or> arity = 3 \<or> arity = 4 \<or> arity = 5 \<or>
     arity = 6 \<or> arity = 7 \<or> arity = 8 \<or> arity = 9 \<or> arity = 10 \<or>
     arity = 11 \<or> arity = 12 \<or> arity = 13 \<or> arity = 14 \<or> arity = 15
     \<or> arity = 16"
    by presburger
  from d assms(3) show ?thesis
    by (elim disjE) (simp_all add: lean_call_with_args_def take_as_nths upt_rec eval_nat_numeral)
qed

lemma call_out_of_range:
  "arity = 0 \<or> 16 < arity \<Longrightarrow>
   lean_call_with_args fns fn arity a = Inl (Panic ''lean_call_with_args: arity > 16'')"
  by (auto simp: lean_call_with_args_def)

text \<open>
  Claim C8. For every function pointer and argument array: called with an arity from 1
  to 16 (and an array holding at least that many slots), \<^verbatim>\<open>lean_call_with_args\<close> invokes
  the function with exactly the first \<open>arity\<close> slots of the array, in order, and returns
  its result; called with arity 0 or an arity above 16 it ends in the fatal panic with
  the message \<^verbatim>\<open>lean_call_with_args: arity > 16\<close>, and no function is invoked.
\<close>

theorem call_with_args_dispatches_by_arity:
  "(1 \<le> arity \<and> arity \<le> 16 \<and> arity \<le> length a \<longrightarrow>
      lean_call_with_args fns fn arity a = Inr (fns fn (take arity a))) \<and>
   (arity = 0 \<or> 16 < arity \<longrightarrow>
      lean_call_with_args fns fn arity a = Inl (Panic ''lean_call_with_args: arity > 16''))"
  using call_in_range [of arity a fns fn] call_out_of_range [of arity fns fn a] by blast

theorem call_with_args_dispatches_by_arity_witness:
  "lean_call_with_args (\<lambda>fn as. Object fn as) 7 2 [Scalar 1, Scalar 2, Scalar 3] =
     Inr (Object 7 [Scalar 1, Scalar 2]) \<and>
   lean_call_with_args (\<lambda>fn as. Object fn as) 7 17 [Scalar 1, Scalar 2, Scalar 3] =
     Inl (Panic ''lean_call_with_args: arity > 16'') \<and>
   lean_call_with_args (\<lambda>fn as. Object fn as) 7 0 [Scalar 1, Scalar 2, Scalar 3] =
     Inl (Panic ''lean_call_with_args: arity > 16'')"
  using call_with_args_dispatches_by_arity
          [of 2 "[Scalar 1, Scalar 2, Scalar 3]" "\<lambda>fn as. Object fn as" 7]
        call_with_args_dispatches_by_arity
          [of 17 "[Scalar 1, Scalar 2, Scalar 3]" "\<lambda>fn as. Object fn as" 7]
        call_with_args_dispatches_by_arity
          [of 0 "[Scalar 1, Scalar 2, Scalar 3]" "\<lambda>fn as. Object fn as" 7]
  by simp

subsection \<open>Applying a closure\<close>
























end
